theory Spec2Isabelle
  imports Main "HOL-Library.Product_Lexorder" "HOL-Library.Multiset"
begin

section \<open>Calendar dates\<close>

text \<open>
  A \<^verbatim>\<open>datetime.date\<close> value: year, month and day. Python orders dates by the
  triple (year, month, day); \<open>date_key\<close> is that triple, ordered lexicographically.
\<close>

datatype date = Date (year: nat) (month: nat) (day: nat)

definition date_key :: "date \<Rightarrow> nat \<times> nat \<times> nat" where
  "date_key d = (year d, month d, day d)"

text \<open>The calendar arithmetic of the standard library behind \<^verbatim>\<open>date.isoweekday()\<close>.\<close>

definition is_leap :: "nat \<Rightarrow> bool" where
  "is_leap y \<longleftrightarrow> y mod 4 = 0 \<and> (y mod 100 \<noteq> 0 \<or> y mod 400 = 0)"

definition DAYS_IN_MONTH :: "nat list" where
  "DAYS_IN_MONTH = [31, 28, 31, 30, 31, 30, 31, 31, 30, 31, 30, 31]"

definition days_in_month :: "nat \<Rightarrow> nat \<Rightarrow> nat" where
  "days_in_month y m =
     (if m = 2 \<and> is_leap y then 29
      else if 1 \<le> m \<and> m \<le> 12 then DAYS_IN_MONTH ! (m - 1) else 0)"

definition days_before_year :: "nat \<Rightarrow> nat" where
  "days_before_year y = (let y1 = y - 1 in y1 * 365 + y1 div 4 - y1 div 100 + y1 div 400)"

definition days_before_month :: "nat \<Rightarrow> nat \<Rightarrow> nat" where
  "days_before_month y m =
     sum_list (take (m - 1) DAYS_IN_MONTH) + (if m > 2 \<and> is_leap y then 1 else 0)"

definition toordinal :: "date \<Rightarrow> nat" where
  "toordinal d = days_before_year (year d) + days_before_month (year d) (month d) + day d"

definition isoweekday :: "date \<Rightarrow> int" where
  "isoweekday d = (let r = toordinal d mod 7 in if r = 0 then 7 else int r)"

section \<open>Exceptions\<close>

text \<open>
  The exceptions a run can meet, as values. \<open>OtherError\<close> stands for an exception of a
  class outside the ones named (\<^verbatim>\<open>re.error\<close>, \<^verbatim>\<open>OSError\<close>), given by its name: no handler
  of the program catches it.
\<close>

datatype exn =
  CalledProcessError string | ValueError | IndexError | RuntimeError string | OtherError string

section \<open>Strings of the standard library\<close>

text \<open>
  Characters are read on the ASCII range, where the listing of the backend lives.
  \<open>isspace\<close> is the whitespace of \<^verbatim>\<open>str.split()\<close>, \<open>is_linebreak\<close> the line
  boundaries of \<^verbatim>\<open>str.splitlines()\<close>.
\<close>

definition isspace :: "char \<Rightarrow> bool" where
  "isspace c = (let n = (of_char c :: nat) in (9 \<le> n \<and> n \<le> 13) \<or> (28 \<le> n \<and> n \<le> 32))"

definition is_linebreak :: "char \<Rightarrow> bool" where
  "is_linebreak c = (let n = (of_char c :: nat) in (10 \<le> n \<and> n \<le> 13) \<or> (28 \<le> n \<and> n \<le> 30))"

text \<open>\<^verbatim>\<open>s.split()\<close>: the maximal runs of non-whitespace characters.\<close>

fun split_acc :: "string \<Rightarrow> string \<Rightarrow> string list" where
  "split_acc acc [] = (if acc = [] then [] else [acc])"
| "split_acc acc (c # cs) =
     (if isspace c then (if acc = [] then split_acc [] cs else acc # split_acc [] cs)
      else split_acc (acc @ [c]) cs)"

definition split_ws :: "string \<Rightarrow> string list" where
  "split_ws s = split_acc [] s"

text \<open>\<^verbatim>\<open>s.split(sep)\<close> for a one-character separator: never empty.\<close>

fun split_on :: "char \<Rightarrow> string \<Rightarrow> string list" where
  "split_on sep [] = [[]]"
| "split_on sep (c # cs) =
     (if c = sep then [] # split_on sep cs
      else (case split_on sep cs of [] \<Rightarrow> [[c]] | w # ws \<Rightarrow> (c # w) # ws))"

text \<open>
  \<^verbatim>\<open>s.splitlines()\<close>: CR LF counts as one boundary, and a final boundary opens no
  empty last line.
\<close>

fun splitlines_acc :: "string \<Rightarrow> string \<Rightarrow> string list" where
  "splitlines_acc acc [] = (if acc = [] then [] else [acc])"
| "splitlines_acc acc [c] = (if is_linebreak c then [acc] else [acc @ [c]])"
| "splitlines_acc acc (c # d # cs) =
     (if c = CHR 0x0D \<and> d = CHR 0x0A then acc # splitlines_acc [] cs
      else if is_linebreak c then acc # splitlines_acc [] (d # cs)
      else splitlines_acc (acc @ [c]) (d # cs))"

definition splitlines :: "string \<Rightarrow> string list" where
  "splitlines s = splitlines_acc [] s"

text \<open>
  Decimal digits, and \<^verbatim>\<open>%Y%m%d\<close> rendered with the year on four digits. Every platform
  renders the years from 1000 on so; below 1000 the C library decides (glibc writes the
  year 5 as \<^verbatim>\<open>5\<close>, others as \<^verbatim>\<open>0005\<close>), which is why the program's \<^verbatim>\<open>strftime\<close> is a
  function of the environment (see \<open>env\<close>) and \<open>strftime_Ymd\<close> only one instance of it.
\<close>

definition digit_char :: "nat \<Rightarrow> char" where
  "digit_char n = ''0123456789'' ! (n mod 10)"

function str_nat :: "nat \<Rightarrow> string" where
  "str_nat n = (if n < 10 then [digit_char n] else str_nat (n div 10) @ [digit_char n])"
  by pat_completeness auto
termination
  by (relation "measure id") auto

definition strftime_Ymd :: "date \<Rightarrow> string" where
  "strftime_Ymd d =
     [digit_char (year d div 1000), digit_char (year d div 100), digit_char (year d div 10),
      digit_char (year d),
      digit_char (month d div 10), digit_char (month d),
      digit_char (day d div 10), digit_char (day d)]"

text \<open>
  An instance of \<^verbatim>\<open>datetime.strptime(data_string, format)\<close> for the in-memory environment
  below: CPython's parser on the formats \<^verbatim>\<open>prefix%Y%m%d\<close> whose prefix is made of ASCII
  characters other than \<^verbatim>\<open>%\<close> and whitespace (\<open>plain\<close>). The library turns such a format
  into a regular expression that is matched from the start of the string, ignoring case:
  the prefix literally, then \<^verbatim>\<open>%Y\<close> as four digits, \<^verbatim>\<open>%m\<close> as \<^verbatim>\<open>1[0-2]|0[1-9]|[1-9]\<close> and
  \<^verbatim>\<open>%d\<close> as \<^verbatim>\<open>3[01]|[12]\d|0[1-9]|[1-9]| [1-9]\<close>, the alternatives tried in this order
  with backtracking. No match, text left after the match, year 0 and a day beyond the
  month's length raise \<^verbatim>\<open>ValueError\<close>.
\<close>

definition lower :: "char \<Rightarrow> char" where
  "lower c = (let n = (of_char c :: nat) in if 65 \<le> n \<and> n \<le> 90 then char_of (n + 32) else c)"

definition digit_val :: "char \<Rightarrow> nat option" where
  "digit_val c = (let n = (of_char c :: nat) in if 48 \<le> n \<and> n \<le> 57 then Some (n - 48) else None)"

fun match_literal :: "string \<Rightarrow> string \<Rightarrow> string option" where
  "match_literal [] s = Some s"
| "match_literal (p # ps) [] = None"
| "match_literal (p # ps) (c # cs) = (if lower p = lower c then match_literal ps cs else None)"

fun match_Y :: "string \<Rightarrow> (nat \<times> string) option" where
  "match_Y (a # b # c # d # rest) =
     (case (digit_val a, digit_val b, digit_val c, digit_val d) of
        (Some a', Some b', Some c', Some d') \<Rightarrow> Some (1000 * a' + 100 * b' + 10 * c' + d', rest)
      | _ \<Rightarrow> None)"
| "match_Y _ = None"

definition two_digits :: "(nat \<Rightarrow> nat \<Rightarrow> bool) \<Rightarrow> string \<Rightarrow> (nat \<times> string) list" where
  "two_digits ok s =
     (case s of
        a # b # rest \<Rightarrow>
          (case (digit_val a, digit_val b) of
             (Some a', Some b') \<Rightarrow> if ok a' b' then [(10 * a' + b', rest)] else []
           | _ \<Rightarrow> [])
      | _ \<Rightarrow> [])"

definition one_digit :: "string \<Rightarrow> (nat \<times> string) list" where
  "one_digit s =
     (case s of
        a # rest \<Rightarrow> (case digit_val a of Some a' \<Rightarrow> if 1 \<le> a' then [(a', rest)] else [] | None \<Rightarrow> [])
      | [] \<Rightarrow> [])"

definition match_m :: "string \<Rightarrow> (nat \<times> string) list" where
  "match_m s =
     two_digits (\<lambda>a b. a = 1 \<and> b \<le> 2) s @ two_digits (\<lambda>a b. a = 0 \<and> 1 \<le> b) s @ one_digit s"

definition match_d :: "string \<Rightarrow> (nat \<times> string) list" where
  "match_d s =
     two_digits (\<lambda>a b. a = 3 \<and> b \<le> 1) s @ two_digits (\<lambda>a b. a = 1 \<or> a = 2) s
     @ two_digits (\<lambda>a b. a = 0 \<and> 1 \<le> b) s @ one_digit s
     @ (case s of c # rest \<Rightarrow> if c = CHR '' '' then one_digit rest else [] | [] \<Rightarrow> [])"

definition parse_Ymd :: "string \<Rightarrow> string \<Rightarrow> exn + date" where
  "parse_Ymd prefix data_string =
     (case match_literal prefix data_string of
        None \<Rightarrow> Inl ValueError
      | Some s1 \<Rightarrow>
          (case match_Y s1 of
             None \<Rightarrow> Inl ValueError
           | Some (y, s2) \<Rightarrow>
               (case concat (map (\<lambda>(m, s3). map (\<lambda>(d, s4). (m, d, s4)) (take 1 (match_d s3)))
                               (match_m s2)) of
                  [] \<Rightarrow> Inl ValueError
                | (m, d, s4) # _ \<Rightarrow>
                    if s4 \<noteq> [] then Inl ValueError
                    else if y = 0 \<or> days_in_month y m < d then Inl ValueError
                    else Inr (Date y m d))))"

text \<open>
  The directive characters of a format, left to right (\<^verbatim>\<open>%%\<close> is the directive \<^verbatim>\<open>%\<close>). A
  format made of the directives \<^verbatim>\<open>%Y\<close>, \<^verbatim>\<open>%m\<close>, \<^verbatim>\<open>%d\<close> and \<^verbatim>\<open>%%\<close> in which one of the first
  three stands twice names a group of the regular expression twice: compiling it raises
  \<^verbatim>\<open>re.error\<close>, whatever the string to parse. Other formats are outside this instance.
\<close>

fun directives :: "string \<Rightarrow> string" where
  "directives (c # d # cs) = (if c = CHR ''%'' then d # directives cs else directives (d # cs))"
| "directives cs = []"

definition plain :: "string \<Rightarrow> bool" where
  "plain p = list_all (\<lambda>c. c \<noteq> CHR ''%'' \<and> \<not> isspace c \<and> (of_char c :: nat) < 128) p"

definition mem_strptime :: "string \<Rightarrow> string \<Rightarrow> exn + date" where
  "mem_strptime data_string format =
     (let n = length format - 6
      in if drop n format = ''%Y%m%d'' \<and> plain (take n format)
         then parse_Ymd (take n format) data_string
         else if list_all (\<lambda>c. c \<in> set ''Ymd%'') (directives format)
                 \<and> \<not> distinct (filter (\<lambda>c. c \<noteq> CHR ''%'') (directives format))
         then Inl (OtherError ''re.error'')
         else Inl (OtherError ''format outside the in-memory library''))"

section \<open>Configuration\<close>

text \<open>
  \<^verbatim>\<open>DatasetEntry\<close> and \<^verbatim>\<open>Config\<close> are dictionaries whose keys may be absent
  (\<open>None\<close>); \<^verbatim>\<open>ValidatedDatasetEntry\<close> has every key. The counts and anchors are
  Python integers.
\<close>

record dataset_entry =
  de_name :: "string option"
  de_recursive :: "bool option"
  de_keep_days :: "int option"
  de_keep_weeks :: "int option"
  de_keep_months :: "int option"
  de_dow :: "int option"
  de_dom :: "int option"

record config =
  cfg_dom :: "int option"
  cfg_dow :: "int option"
  cfg_keep_days :: "int option"
  cfg_keep_weeks :: "int option"
  cfg_keep_months :: "int option"
  cfg_recursive :: "bool option"
  cfg_datasets :: "dataset_entry list option"
  cfg_snapshot_prefix :: "string option"

record validated_dataset_entry =
  name :: string
  recursive :: bool
  keep_days :: int
  keep_weeks :: int
  keep_months :: int
  dow :: int
  dom' :: int

definition DEFAULT_DOM :: int where "DEFAULT_DOM = 1"
definition DEFAULT_DOW :: int where "DEFAULT_DOW = 7"
definition DEFAULT_RECURSIVE :: bool where "DEFAULT_RECURSIVE = True"
definition DEFAULT_KEEP_DAYS :: int where "DEFAULT_KEEP_DAYS = 0"
definition DEFAULT_KEEP_WEEKS :: int where "DEFAULT_KEEP_WEEKS = 0"
definition DEFAULT_KEEP_MONTHS :: int where "DEFAULT_KEEP_MONTHS = 0"

text \<open>\<^verbatim>\<open>d.get(key, default)\<close> on an optional key.\<close>

definition get_or :: "'a option \<Rightarrow> 'a \<Rightarrow> 'a" where
  "get_or v dflt = (case v of Some x \<Rightarrow> x | None \<Rightarrow> dflt)"

definition snapshot_prefix :: "config \<Rightarrow> string" where
  "snapshot_prefix cfg = get_or (cfg_snapshot_prefix cfg) ''''"

text \<open>
  \<^verbatim>\<open>get_dataset_configs\<close>: the loop over \<^verbatim>\<open>enumerate(config.get("datasets", []))\<close>,
  raising at the first entry without a name.
\<close>

fun validate_from :: "config \<Rightarrow> nat \<Rightarrow> dataset_entry list \<Rightarrow> exn + validated_dataset_entry list" where
  "validate_from cfg i [] = Inr []"
| "validate_from cfg i (dataset # rest) =
     (case de_name dataset of
        None \<Rightarrow> Inl (RuntimeError (''Dataset config #'' @ str_nat i @ '' must have a name''))
      | Some dataset_name \<Rightarrow>
          (case validate_from cfg (Suc i) rest of
             Inl e \<Rightarrow> Inl e
           | Inr ret_val \<Rightarrow>
               Inr (\<lparr> name = dataset_name,
                      recursive = get_or (de_recursive dataset) (get_or (cfg_recursive cfg) DEFAULT_RECURSIVE),
                      keep_days = get_or (de_keep_days dataset) (get_or (cfg_keep_days cfg) DEFAULT_KEEP_DAYS),
                      keep_weeks = get_or (de_keep_weeks dataset) (get_or (cfg_keep_weeks cfg) DEFAULT_KEEP_WEEKS),
                      keep_months = get_or (de_keep_months dataset) (get_or (cfg_keep_months cfg) DEFAULT_KEEP_MONTHS),
                      dow = get_or (de_dow dataset) (get_or (cfg_dow cfg) DEFAULT_DOW),
                      dom' = get_or (de_dom dataset) (get_or (cfg_dom cfg) DEFAULT_DOM) \<rparr> # ret_val)))"

definition get_dataset_configs :: "config \<Rightarrow> exn + validated_dataset_entry list" where
  "get_dataset_configs cfg = validate_from cfg 0 (get_or (cfg_datasets cfg) [])"

section \<open>The process environment and the run's effects\<close>

text \<open>
  What a run reads from outside the program:
  \<^item> \<open>which_zfs\<close>, the result of \<^verbatim>\<open>which("zfs")\<close>, and \<open>today_date\<close>, the date of
    \<^verbatim>\<open>datetime.now()\<close>;
  \<^item> the backend over a world \<open>'w\<close>: \<open>zfs_list\<close> is the \<^verbatim>\<open>zfs list -t snapshot\<close> call (its
    output, or the exception \<^verbatim>\<open>check_output\<close> raises), \<open>zfs_cmd\<close> a snapshot or destroy
    command (the exception \<^verbatim>\<open>check_output\<close> raises, if any, and the world after the call);
  \<^item> the library: \<open>strptime data_string format\<close> and \<open>strftime date format\<close>, whose
    results depend on the format the configured prefix makes and on the platform;
  \<^item> \<open>set_order\<close>, the order in which Python iterates a set of dates: it follows the
    hashes, which change from run to run, so the environment ranks the dates of a set
    (given as a list) and the loop visits them by rank.
\<close>

record 'w env =
  which_zfs :: "string option"
  today_date :: date
  zfs_list :: "'w \<Rightarrow> exn + string"
  zfs_cmd :: "string list \<Rightarrow> 'w \<Rightarrow> exn option \<times> 'w"
  strptime :: "string \<Rightarrow> string \<Rightarrow> exn + date"
  strftime :: "date \<Rightarrow> string \<Rightarrow> string"
  set_order :: "date list \<Rightarrow> date \<Rightarrow> nat"

datatype level = DEBUG | INFO | WARNING | ERROR | CRITICAL

text \<open>
  The state a run threads: the backend's world, the snapshot and destroy commands
  handed to \<^verbatim>\<open>check_output\<close> so far, and the log records written. The two \<^verbatim>\<open>DEBUG\<close> records that print a list in
  Python's rendering (the parsed configurations, the command about to run) are left out.
\<close>

record 'w state =
  world :: 'w
  trace :: "string list list"
  logs :: "(level \<times> string) list"

definition log :: "level \<Rightarrow> string \<Rightarrow> 'w state \<Rightarrow> 'w state" where
  "log lv msg st = st\<lparr>logs := logs st @ [(lv, msg)]\<rparr>"

section \<open>The catalog: get_sorted_snapshots\<close>

definition sort_desc :: "date list \<Rightarrow> date list" where
  "sort_desc xs = rev (sort_key date_key xs)"

text \<open>
  One turn of the loop over the listing's lines; \<open>ret_val\<close> is the \<^verbatim>\<open>defaultdict(list)\<close>.
  Only the call of \<^verbatim>\<open>strptime\<close> stands in the \<^verbatim>\<open>try\<close> block, and only \<^verbatim>\<open>ValueError\<close> is
  caught there.
\<close>

definition add_line :: "'w env \<Rightarrow> string \<Rightarrow> string \<Rightarrow> (string \<Rightarrow> date list) \<Rightarrow> exn + (string \<Rightarrow> date list)" where
  "add_line e prefix line ret_val =
     (case split_ws line of
        [] \<Rightarrow> Inl IndexError
      | p0 # _ \<Rightarrow>
          (case split_on CHR ''@'' p0 of
             [dataset, timestamp] \<Rightarrow>
               (case strptime e timestamp (prefix @ ''%Y%m%d'') of
                  Inr parsed \<Rightarrow> Inr (ret_val(dataset := ret_val dataset @ [parsed]))
                | Inl ex \<Rightarrow> if ex = ValueError then Inr ret_val else Inl ex)
           | _ \<Rightarrow> Inl ValueError))"

fun add_lines :: "'w env \<Rightarrow> string \<Rightarrow> string list \<Rightarrow> (string \<Rightarrow> date list) \<Rightarrow> exn + (string \<Rightarrow> date list)" where
  "add_lines e prefix [] ret_val = Inr ret_val"
| "add_lines e prefix (line # rest) ret_val =
     (case add_line e prefix line ret_val of
        Inl ex \<Rightarrow> Inl ex
      | Inr ret_val' \<Rightarrow> add_lines e prefix rest ret_val')"

definition get_sorted_snapshots :: "'w env \<Rightarrow> config \<Rightarrow> 'w \<Rightarrow> exn + (string \<Rightarrow> date list)" where
  "get_sorted_snapshots e cfg w =
     (case zfs_list e w of
        Inl ex \<Rightarrow> Inl ex
      | Inr stdout \<Rightarrow>
          if stdout = ''no datasets available'' then Inr (\<lambda>_. [])
          else
            (case add_lines e (snapshot_prefix cfg) (drop 1 (splitlines stdout)) (\<lambda>_. []) of
               Inl ex \<Rightarrow> Inl ex
             | Inr ret_val \<Rightarrow> Inr (\<lambda>dataset. sort_desc (ret_val dataset))))"

text \<open>
  The listing in the words of the specification. The first field of a line is its first
  run of characters that are not whitespace; a line names an entry when this field
  holds exactly one \<^verbatim>\<open>@\<close>, and the entry is the dataset before it and the identifier after
  it. The dates of a dataset are the identifiers of its entries that parse, in listing
  order.
\<close>

definition first_field :: "string \<Rightarrow> string" where
  "first_field line = takeWhile (\<lambda>c. \<not> isspace c) (dropWhile isspace line)"

definition names_entry :: "string \<Rightarrow> bool" where
  "names_entry line \<longleftrightarrow> count_list (first_field line) CHR ''@'' = 1"

definition entry_of :: "string \<Rightarrow> (string \<times> string) option" where
  "entry_of line =
     (if names_entry line
      then Some (takeWhile (\<lambda>c. c \<noteq> CHR ''@'') (first_field line),
                 drop 1 (dropWhile (\<lambda>c. c \<noteq> CHR ''@'') (first_field line)))
      else None)"

definition dates_of :: "'w env \<Rightarrow> string \<Rightarrow> string \<Rightarrow> string list \<Rightarrow> date list" where
  "dates_of e prefix dataset lines =
     List.map_filter
       (\<lambda>line. case entry_of line of
                 None \<Rightarrow> None
               | Some (ds, timestamp) \<Rightarrow>
                   if ds = dataset
                   then (case strptime e timestamp (prefix @ ''%Y%m%d'') of
                           Inr parsed \<Rightarrow> Some parsed
                         | Inl ex \<Rightarrow> None)
                   else None)
       lines"

section \<open>Retention: the keep set and the deletion set\<close>

text \<open>The slice \<^verbatim>\<open>xs[:k]\<close>: a negative \<open>k\<close> counts from the end.\<close>

definition slice_to :: "int \<Rightarrow> 'a list \<Rightarrow> 'a list" where
  "slice_to k xs = (if 0 \<le> k then take (nat k) xs else take (nat (int (length xs) + k)) xs)"

definition keep_daily_set :: "validated_dataset_entry \<Rightarrow> date list \<Rightarrow> date set" where
  "keep_daily_set dc dataset_snapshots = set (slice_to (keep_days dc) dataset_snapshots)"

definition keep_weekly_set :: "validated_dataset_entry \<Rightarrow> date list \<Rightarrow> date set" where
  "keep_weekly_set dc dataset_snapshots =
     set (slice_to (keep_weeks dc) [snapshot \<leftarrow> dataset_snapshots. isoweekday snapshot = dow dc])"

definition keep_monthly_set :: "validated_dataset_entry \<Rightarrow> date list \<Rightarrow> date set" where
  "keep_monthly_set dc dataset_snapshots =
     set (slice_to (keep_months dc) [snapshot \<leftarrow> dataset_snapshots. int (day snapshot) = dom' dc])"

definition keep_set :: "validated_dataset_entry \<Rightarrow> date list \<Rightarrow> date set" where
  "keep_set dc dataset_snapshots =
     keep_daily_set dc dataset_snapshots \<union> keep_weekly_set dc dataset_snapshots
     \<union> keep_monthly_set dc dataset_snapshots"

definition delete_set :: "validated_dataset_entry \<Rightarrow> date list \<Rightarrow> date set" where
  "delete_set dc dataset_snapshots = set dataset_snapshots - keep_set dc dataset_snapshots"

text \<open>
  The dates of \<^verbatim>\<open>set(dataset_snapshots) - keep_set\<close>, each once, listed in catalog order.
  The loop over this set visits them in the order the environment gives (see
  \<open>iter_order\<close> below).
\<close>

definition delete_order :: "validated_dataset_entry \<Rightarrow> date list \<Rightarrow> date list" where
  "delete_order dc dataset_snapshots =
     remdups [snapshot \<leftarrow> dataset_snapshots. snapshot \<notin> keep_set dc dataset_snapshots]"

text \<open>
  The keep set in the words of the specification: the first \<open>keepDays\<close> dates, the first
  \<open>keepWeeks\<close> dates on the weekday anchor, the first \<open>keepMonths\<close> dates on the
  day-of-month anchor.
\<close>

definition spec_keep_set :: "validated_dataset_entry \<Rightarrow> date list \<Rightarrow> date set" where
  "spec_keep_set dc ds =
     set (take (nat (keep_days dc)) ds)
     \<union> set (take (nat (keep_weeks dc)) (filter (\<lambda>d. isoweekday d = dow dc) ds))
     \<union> set (take (nat (keep_months dc)) (filter (\<lambda>d. int (day d) = dom' dc) ds))"

definition nonneg_counts :: "validated_dataset_entry \<Rightarrow> bool" where
  "nonneg_counts dc \<longleftrightarrow> 0 \<le> keep_days dc \<and> 0 \<le> keep_weeks dc \<and> 0 \<le> keep_months dc"

definition descending :: "date list \<Rightarrow> bool" where
  "descending ds = sorted_wrt (\<lambda>a b. date_key b \<le> date_key a) ds"

section \<open>The scheduler: main\<close>

definition is_due :: "validated_dataset_entry \<Rightarrow> date \<Rightarrow> bool" where
  "is_due dc today \<longleftrightarrow>
     keep_days dc > 0
     \<or> (keep_weeks dc > 0 \<and> isoweekday today = dow dc)
     \<or> (keep_months dc > 0 \<and> int (day today) = dom' dc)"

definition snapshot_name :: "'w env \<Rightarrow> config \<Rightarrow> validated_dataset_entry \<Rightarrow> date \<Rightarrow> string" where
  "snapshot_name e cfg dc d = name dc @ ''@'' @ snapshot_prefix cfg @ strftime e d ''%Y%m%d''"

text \<open>\<^verbatim>\<open>["zfs", verb, snapshot]\<close>, with \<^verbatim>\<open>cmd.insert(2, "-r")\<close> for a recursive dataset.\<close>

definition zfs_command :: "string \<Rightarrow> validated_dataset_entry \<Rightarrow> string \<Rightarrow> string list" where
  "zfs_command verb dc snap =
     (let cmd = [''zfs'', verb, snap]
      in if recursive dc then take 2 cmd @ [''-r''] @ drop 2 cmd else cmd)"

definition create_cmd :: "'w env \<Rightarrow> config \<Rightarrow> validated_dataset_entry \<Rightarrow> date \<Rightarrow> string list" where
  "create_cmd e cfg dc today = zfs_command ''snapshot'' dc (snapshot_name e cfg dc today)"

definition destroy_cmd :: "'w env \<Rightarrow> config \<Rightarrow> validated_dataset_entry \<Rightarrow> date \<Rightarrow> string list" where
  "destroy_cmd e cfg dc snapshot = zfs_command ''destroy'' dc (snapshot_name e cfg dc snapshot)"

text \<open>
  \<^verbatim>\<open>if not dry_run: try: check_output(cmd) except CalledProcessError: logging.error(...)\<close>.
  The command is handed to \<^verbatim>\<open>check_output\<close> once. A \<^verbatim>\<open>CalledProcessError\<close> is logged and
  the run goes on (\<open>None\<close>); any other exception is not caught (\<open>Some\<close>).
\<close>

definition run_zfs :: "'w env \<Rightarrow> bool \<Rightarrow> string list \<Rightarrow> 'w state \<Rightarrow> exn option \<times> 'w state" where
  "run_zfs e dry_run cmd st =
     (if dry_run then (None, st)
      else
        (let (r, w') = zfs_cmd e cmd (world st);
             st' = st\<lparr>world := w', trace := trace st @ [cmd]\<rparr>
         in case r of
              None \<Rightarrow> (None, st')
            | Some ex \<Rightarrow>
                (case ex of
                   CalledProcessError err \<Rightarrow>
                     (None, log ERROR (''zfs command failed with error: '' @ err) st')
                 | _ \<Rightarrow> (Some ex, st'))))"

text \<open>
  The order of the loop \<^verbatim>\<open>for snapshot in set(dataset_snapshots) - keep_set\<close>: the dates
  of the set, sorted by the rank the environment gives them.
\<close>

definition iter_order :: "'w env \<Rightarrow> date list \<Rightarrow> date list" where
  "iter_order e ds = sort_key (set_order e ds) ds"

fun destroy_all :: "'w env \<Rightarrow> config \<Rightarrow> bool \<Rightarrow> validated_dataset_entry \<Rightarrow> date list \<Rightarrow> 'w state \<Rightarrow> exn option \<times> 'w state" where
  "destroy_all e cfg dry_run dc [] st = (None, st)"
| "destroy_all e cfg dry_run dc (snapshot # rest) st =
     (case run_zfs e dry_run (destroy_cmd e cfg dc snapshot)
             (log INFO (''Destroying snapshot '' @ snapshot_name e cfg dc snapshot) st) of
        (Some ex, st') \<Rightarrow> (Some ex, st')
      | (None, st') \<Rightarrow> destroy_all e cfg dry_run dc rest st')"

text \<open>
  The block under \<^verbatim>\<open># Cleanup snapshots\<close>: the catalog is queried again, the keep set
  is computed and every other date of the dataset is destroyed. An exception of the
  catalog query is not caught: it ends the run (\<open>Some\<close>).
\<close>

definition cleanup :: "'w env \<Rightarrow> config \<Rightarrow> bool \<Rightarrow> validated_dataset_entry \<Rightarrow> 'w state \<Rightarrow> exn option \<times> 'w state" where
  "cleanup e cfg dry_run dc st =
     (case get_sorted_snapshots e cfg (world st) of
        Inl ex \<Rightarrow> (Some ex, st)
      | Inr catalog \<Rightarrow>
          destroy_all e cfg dry_run dc (iter_order e (delete_order dc (catalog (name dc)))) st)"

text \<open>The body of the loop over the dataset configurations.\<close>

definition process_dataset :: "'w env \<Rightarrow> config \<Rightarrow> bool \<Rightarrow> validated_dataset_entry \<Rightarrow> 'w state \<Rightarrow> exn option \<times> 'w state" where
  "process_dataset e cfg dry_run dc st =
     (let today = today_date e in
      if \<not> is_due dc today
      then (None, log DEBUG (''No snapshot scheduled for dataset '' @ name dc) st)
      else
        (case get_sorted_snapshots e cfg (world st) of
           Inl ex \<Rightarrow> (Some ex, st)
         | Inr catalog \<Rightarrow>
             if today \<in> set (catalog (name dc))
             then (None, log WARNING (''Snapshot '' @ snapshot_name e cfg dc today @ '' already exists'') st)
             else
               (case run_zfs e dry_run (create_cmd e cfg dc today)
                       (log INFO (''Creating snapshot '' @ snapshot_name e cfg dc today) st) of
                  (Some ex, st1) \<Rightarrow> (Some ex, st1)
                | (None, st1) \<Rightarrow> cleanup e cfg dry_run dc st1)))"

fun process_all :: "'w env \<Rightarrow> config \<Rightarrow> bool \<Rightarrow> validated_dataset_entry list \<Rightarrow> 'w state \<Rightarrow> (exn + int) \<times> 'w state" where
  "process_all e cfg dry_run [] st = (Inr 0, st)"
| "process_all e cfg dry_run (dc # rest) st =
     (case process_dataset e cfg dry_run dc st of
        (Some ex, st') \<Rightarrow> (Inl ex, st')
      | (None, st') \<Rightarrow> process_all e cfg dry_run rest st')"

text \<open>\<^verbatim>\<open>main\<close>: the exit status, or the exception that ends the run.\<close>

definition main :: "'w env \<Rightarrow> config \<Rightarrow> bool \<Rightarrow> 'w state \<Rightarrow> (exn + int) \<times> 'w state" where
  "main e cfg dry_run st =
     (case which_zfs e of
        None \<Rightarrow> (Inr 2, log CRITICAL ''zfs command cannot be found'' st)
      | Some zfs_path \<Rightarrow>
          (case get_dataset_configs cfg of
             Inl (RuntimeError msg) \<Rightarrow> (Inr 3, log CRITICAL msg st)
           | Inl ex \<Rightarrow> (Inl ex, st)
           | Inr dataset_configs \<Rightarrow> process_all e cfg dry_run dataset_configs st))"



section \<open>In-memory environments\<close>

text \<open>
  A backend for running the model: the world is the list of snapshot names, the commands
  that are set to fail with a non-zero exit status, and whether the listing itself
  fails. As \<^verbatim>\<open>check_output\<close> does, it raises \<^verbatim>\<open>ValueError\<close> for a command with a NUL
  character in an argument. The library is \<open>mem_strptime\<close> and \<open>strftime_Ymd\<close>, and a
  set is iterated in the order of its list.
\<close>

record mem_world =
  snapshots :: "string list"
  failing :: "string list list"
  list_fails :: bool

definition mem_list :: "mem_world \<Rightarrow> exn + string" where
  "mem_list w =
     (if list_fails w then Inl (CalledProcessError ''cannot open /dev/zfs'')
      else if snapshots w = [] then Inr (''no datasets available'' @ [CHR 0x0A])
      else Inr (''NAME  USED  AVAIL  REFER  MOUNTPOINT'' @ [CHR 0x0A]
                @ concat (map (\<lambda>n. n @ ''  0B  -  96K  -'' @ [CHR 0x0A]) (snapshots w))))"

definition mem_cmd :: "string list \<Rightarrow> mem_world \<Rightarrow> exn option \<times> mem_world" where
  "mem_cmd cmd w =
     (if list_ex (\<lambda>arg. CHR 0x00 \<in> set arg) cmd then (Some ValueError, w)
      else if cmd \<in> set (failing w) then (Some (CalledProcessError ''permission denied''), w)
      else if length cmd < 3 then (Some (CalledProcessError ''usage''), w)
      else if cmd ! 1 = ''snapshot'' then (None, w\<lparr>snapshots := snapshots w @ [last cmd]\<rparr>)
      else if cmd ! 1 = ''destroy'' then (None, w\<lparr>snapshots := removeAll (last cmd) (snapshots w)\<rparr>)
      else (Some (CalledProcessError ''usage''), w))"

definition mem_env :: "date \<Rightarrow> mem_world env" where
  "mem_env today =
     \<lparr> which_zfs = Some ''/sbin/zfs'', today_date = today, zfs_list = mem_list, zfs_cmd = mem_cmd,
       strptime = mem_strptime, strftime = (\<lambda>d format. strftime_Ymd d),
       set_order = (\<lambda>ds d. 0) \<rparr>"

definition mem_state :: "string list \<Rightarrow> string list list \<Rightarrow> mem_world state" where
  "mem_state snaps bad =
     \<lparr> world = \<lparr> snapshots = snaps, failing = bad, list_fails = False \<rparr>, trace = [], logs = [] \<rparr>"

definition tank :: "int \<Rightarrow> int \<Rightarrow> int \<Rightarrow> dataset_entry" where
  "tank kd kw km =
     \<lparr> de_name = Some ''tank'', de_recursive = None, de_keep_days = Some kd,
       de_keep_weeks = Some kw, de_keep_months = Some km, de_dow = None, de_dom = None \<rparr>"

definition tank_config :: "dataset_entry list \<Rightarrow> config" where
  "tank_config ds =
     \<lparr> cfg_dom = None, cfg_dow = None, cfg_keep_days = None, cfg_keep_weeks = None,
       cfg_keep_months = None, cfg_recursive = None, cfg_datasets = Some ds,
       cfg_snapshot_prefix = None \<rparr>"

definition tank_policy :: "int \<Rightarrow> int \<Rightarrow> int \<Rightarrow> validated_dataset_entry" where
  "tank_policy kd kw km =
     \<lparr> name = ''tank'', recursive = True, keep_days = kd, keep_weeks = kw, keep_months = km,
       dow = 7, dom' = 1 \<rparr>"

text \<open>A catalog that knows the dataset \<open>tank\<close> only, and the catalog query read at one dataset.\<close>

definition tank_catalog :: "date list \<Rightarrow> string \<Rightarrow> date list" where
  "tank_catalog ds dataset = (if dataset = ''tank'' then ds else [])"

definition catalog_of :: "'w env \<Rightarrow> config \<Rightarrow> 'w \<Rightarrow> string \<Rightarrow> date list option" where
  "catalog_of e cfg w dataset =
     (case get_sorted_snapshots e cfg w of Inl ex \<Rightarrow> None | Inr catalog \<Rightarrow> Some (catalog dataset))"

section \<open>Properties\<close>

subsection \<open>Slices and the keep set\<close>

lemma slice_to_nonneg: "0 \<le> k \<Longrightarrow> slice_to k xs = take (nat k) xs"
  by (simp add: slice_to_def)

lemma set_slice_to_subset: "set (slice_to k xs) \<subseteq> set xs"
  by (simp add: slice_to_def set_take_subset)

lemma card_set_slice_to: "0 \<le> k \<Longrightarrow> int (card (set (slice_to k xs))) \<le> k"
proof -
  assume k: "0 \<le> k"
  have "card (set (take (nat k) xs)) \<le> length (take (nat k) xs)"
    by (rule card_length)
  also have "\<dots> \<le> nat k"
    by simp
  finally show ?thesis
    using k by (simp add: slice_to_def)
qed

lemma slice_to_zero: "slice_to 0 xs = []"
  by (simp add: slice_to_def)

lemma slice_to_all: "int (length xs) \<le> k \<Longrightarrow> slice_to k xs = xs"
  by (simp add: slice_to_def)

lemma date_key_inj: "date_key a = date_key b \<Longrightarrow> a = b"
  by (cases a, cases b) (simp add: date_key_def)

lemma descending_filter: "descending ds \<Longrightarrow> descending (filter P ds)"
  by (simp add: descending_def sorted_wrt_filter)

lemma newest_is_head:
  assumes "descending ds" and "t \<in> set ds" and "\<forall>d \<in> set ds. date_key d \<le> date_key t"
  shows "\<exists>rest. ds = t # rest"
proof (cases ds)
  case Nil
  with assms(2) show ?thesis by simp
next
  case (Cons x rest)
  have "date_key x \<le> date_key t"
    using assms(3) Cons by simp
  moreover have "date_key t \<le> date_key x"
    using assms(1,2) Cons by (auto simp: descending_def)
  ultimately have "x = t"
    by (simp add: date_key_inj)
  with Cons show ?thesis by simp
qed

lemma head_in_slice: "0 < k \<Longrightarrow> t \<in> set (slice_to k (t # rest))"
  by (cases "nat k") (auto simp: slice_to_def)

lemma newest_in_slice:
  assumes "descending ds" and "t \<in> set ds" and "\<forall>d \<in> set ds. date_key d \<le> date_key t"
    and "0 < k"
  shows "t \<in> set (slice_to k ds)"
proof -
  obtain rest where "ds = t # rest"
    using newest_is_head [OF assms(1-3)] by blast
  then show ?thesis
    using head_in_slice [OF assms(4)] by simp
qed

lemma newest_in_filtered_slice:
  assumes "descending ds" and "t \<in> set ds" and "\<forall>d \<in> set ds. date_key d \<le> date_key t"
    and "0 < k" and "P t"
  shows "t \<in> set (slice_to k (filter P ds))"
proof (rule newest_in_slice)
  show "descending (filter P ds)"
    using assms(1) by (rule descending_filter)
  show "t \<in> set (filter P ds)"
    using assms(2,5) by simp
  show "\<forall>d \<in> set (filter P ds). date_key d \<le> date_key t"
    using assms(3) by simp
  show "0 < k" by fact
qed

lemma keep_set_subset: "keep_set dc ds \<subseteq> set ds"
proof -
  have "set (slice_to k (filter P ds)) \<subseteq> set ds" for k and P :: "date \<Rightarrow> bool"
    using set_slice_to_subset [of k "filter P ds"] by auto
  then show ?thesis
    using set_slice_to_subset [of "keep_days dc" ds]
    by (simp add: keep_set_def keep_daily_set_def keep_weekly_set_def keep_monthly_set_def)
qed

lemma set_delete_order: "set (delete_order dc ds) = delete_set dc ds"
  by (auto simp: delete_order_def delete_set_def)

lemma distinct_delete_order: "distinct (delete_order dc ds)"
  by (simp add: delete_order_def)

lemma set_iter_order: "set (iter_order e ds) = set ds"
  by (simp add: iter_order_def)

lemma distinct_iter_order: "distinct (iter_order e ds) = distinct ds"
  by (simp add: iter_order_def)

text \<open>
  C2. For a policy with non-negative counts and any sequence of capture dates, the
  keep set of the code is the union of three slices, each taken from the full sequence:
  the first \<open>keepDays\<close> dates, the first \<open>keepWeeks\<close> of the dates on the weekday
  anchor, and the first \<open>keepMonths\<close> of the dates on the day-of-month anchor. A tier
  with count 0 contributes nothing, and a tier whose count reaches the number of its
  matching dates contributes all of them.
\<close>

theorem keep_set_union_of_slices:
  assumes "nonneg_counts dc"
  shows "keep_set dc ds = spec_keep_set dc ds
    \<and> (keep_days dc = 0 \<longrightarrow> keep_daily_set dc ds = {})
    \<and> (keep_weeks dc = 0 \<longrightarrow> keep_weekly_set dc ds = {})
    \<and> (keep_months dc = 0 \<longrightarrow> keep_monthly_set dc ds = {})
    \<and> (int (length ds) \<le> keep_days dc \<longrightarrow> keep_daily_set dc ds = set ds)
    \<and> (int (length (filter (\<lambda>d. isoweekday d = dow dc) ds)) \<le> keep_weeks dc
         \<longrightarrow> keep_weekly_set dc ds = {d \<in> set ds. isoweekday d = dow dc})
    \<and> (int (length (filter (\<lambda>d. int (day d) = dom' dc) ds)) \<le> keep_months dc
         \<longrightarrow> keep_monthly_set dc ds = {d \<in> set ds. int (day d) = dom' dc})"
proof -
  have union: "keep_set dc ds = spec_keep_set dc ds"
    using assms
    by (simp add: keep_set_def spec_keep_set_def keep_daily_set_def keep_weekly_set_def
        keep_monthly_set_def nonneg_counts_def slice_to_nonneg)
  have zero: "keep_days dc = 0 \<longrightarrow> keep_daily_set dc ds = {}"
    "keep_weeks dc = 0 \<longrightarrow> keep_weekly_set dc ds = {}"
    "keep_months dc = 0 \<longrightarrow> keep_monthly_set dc ds = {}"
    by (simp_all add: keep_daily_set_def keep_weekly_set_def keep_monthly_set_def slice_to_zero)
  have beyond: "int (length ds) \<le> keep_days dc \<longrightarrow> keep_daily_set dc ds = set ds"
    "int (length (filter (\<lambda>d. isoweekday d = dow dc) ds)) \<le> keep_weeks dc
       \<longrightarrow> keep_weekly_set dc ds = {d \<in> set ds. isoweekday d = dow dc}"
    "int (length (filter (\<lambda>d. int (day d) = dom' dc) ds)) \<le> keep_months dc
       \<longrightarrow> keep_monthly_set dc ds = {d \<in> set ds. int (day d) = dom' dc}"
    by (simp_all add: keep_daily_set_def keep_weekly_set_def keep_monthly_set_def slice_to_all)
  from union zero beyond show ?thesis
    by blast
qed

text \<open>
  C4. The deletion set is the set of the catalog's dates minus the keep set: it is
  disjoint from the keep set, and together they are the dates of the catalog. The loop
  of destroy requests visits each date of the deletion set once, in whatever order the
  environment iterates the set.
\<close>

theorem deletion_is_complement:
  "delete_set dc ds \<inter> keep_set dc ds = {}
   \<and> delete_set dc ds \<union> keep_set dc ds = set ds
   \<and> delete_set dc ds = set ds - keep_set dc ds
   \<and> set (delete_order dc ds) = delete_set dc ds
   \<and> distinct (delete_order dc ds)
   \<and> set (iter_order e (delete_order dc ds)) = delete_set dc ds
   \<and> distinct (iter_order e (delete_order dc ds))"
  using keep_set_subset [of dc ds]
  by (auto simp: delete_set_def set_delete_order distinct_delete_order set_iter_order
      distinct_iter_order)

text \<open>
  C5. For a policy with non-negative counts, the keep set has at most
  \<open>keepDays + keepWeeks + keepMonths\<close> dates, and each of them is a date of the catalog.
\<close>

theorem keep_set_bounded:
  assumes "nonneg_counts dc"
  shows "int (card (keep_set dc ds)) \<le> keep_days dc + keep_weeks dc + keep_months dc
    \<and> keep_set dc ds \<subseteq> set ds"
proof -
  have d: "int (card (keep_daily_set dc ds)) \<le> keep_days dc"
    using assms by (simp add: keep_daily_set_def nonneg_counts_def card_set_slice_to)
  have w: "int (card (keep_weekly_set dc ds)) \<le> keep_weeks dc"
    using assms by (simp add: keep_weekly_set_def nonneg_counts_def card_set_slice_to)
  have m: "int (card (keep_monthly_set dc ds)) \<le> keep_months dc"
    using assms by (simp add: keep_monthly_set_def nonneg_counts_def card_set_slice_to)
  have "card (keep_set dc ds)
      \<le> card (keep_daily_set dc ds) + card (keep_weekly_set dc ds) + card (keep_monthly_set dc ds)"
    unfolding keep_set_def
    by (rule order_trans [OF card_Un_le]) (simp add: card_Un_le)
  with d w m have "int (card (keep_set dc ds)) \<le> keep_days dc + keep_weeks dc + keep_months dc"
    by linarith
  then show ?thesis
    using keep_set_subset [of dc ds] by simp
qed

text \<open>
  C9 (amended). For a due dataset whose descending catalog contains today's date and no
  later date, today's date is in the keep set and not in the deletion set.
\<close>

theorem today_kept_when_newest:
  assumes "is_due dc today" and "today \<in> set ds" and "descending ds"
    and "\<forall>d \<in> set ds. date_key d \<le> date_key today"
  shows "today \<in> keep_set dc ds \<and> today \<notin> delete_set dc ds"
proof -
  consider "0 < keep_days dc"
    | "0 < keep_weeks dc" "isoweekday today = dow dc"
    | "0 < keep_months dc" "int (day today) = dom' dc"
    using assms(1) by (auto simp: is_due_def)
  then have "today \<in> keep_set dc ds"
  proof cases
    case 1
    then show ?thesis
      using newest_in_slice [OF assms(3,2,4)] by (simp add: keep_set_def keep_daily_set_def)
  next
    case 2
    then show ?thesis
      using newest_in_filtered_slice [OF assms(3,2,4), of "keep_weeks dc" "\<lambda>d. isoweekday d = dow dc"]
      by (simp add: keep_set_def keep_weekly_set_def)
  next
    case 3
    then show ?thesis
      using newest_in_filtered_slice [OF assms(3,2,4), of "keep_months dc" "\<lambda>d. int (day d) = dom' dc"]
      by (simp add: keep_set_def keep_monthly_set_def)
  qed
  then show ?thesis
    by (simp add: delete_set_def)
qed

subsection \<open>The catalog query\<close>

lemma descending_sort_desc: "descending (sort_desc xs)"
proof -
  have "sorted (map date_key (sort_key date_key xs))"
    by (rule sorted_sort_key)
  then have "sorted_wrt (\<lambda>a b. date_key a \<le> date_key b) (sort_key date_key xs)"
    by (simp add: sorted_map)
  then show ?thesis
    by (simp add: descending_def sort_desc_def sorted_wrt_rev)
qed

lemma mset_sort_desc: "mset (sort_desc xs) = mset xs"
  by (simp add: sort_desc_def)

lemma set_sort_desc: "set (sort_desc xs) = set xs"
  by (simp add: sort_desc_def)

lemma sort_desc_Nil: "sort_desc [] = []"
  by (simp add: sort_desc_def)

text \<open>The tokens of the code on a line that names an entry.\<close>

lemma split_acc_first:
  "acc \<noteq> [] \<or> first_field cs \<noteq> [] \<Longrightarrow>
   \<exists>ws. split_acc acc cs =
     (if acc = [] then first_field cs else (acc @ takeWhile (\<lambda>c. \<not> isspace c) cs)) # ws"
proof (induction cs arbitrary: acc)
  case Nil
  then show ?case by (simp add: first_field_def)
next
  case (Cons c cs)
  show ?case
  proof (cases "isspace c")
    case True
    show ?thesis
    proof (cases "acc = []")
      case True
      with Cons.prems \<open>isspace c\<close> have "first_field cs \<noteq> []"
        by (simp add: first_field_def)
      then obtain ws where "split_acc [] cs = first_field cs # ws"
        using Cons.IH [of "[]"] by auto
      with True \<open>isspace c\<close> show ?thesis
        by (simp add: first_field_def)
    next
      case False
      with \<open>isspace c\<close> show ?thesis by simp
    qed
  next
    case False
    obtain ws where "split_acc (acc @ [c]) cs = ((acc @ [c]) @ takeWhile (\<lambda>c. \<not> isspace c) cs) # ws"
      using Cons.IH [of "acc @ [c]"] by auto
    with False show ?thesis
      by (simp add: first_field_def)
  qed
qed

lemma split_ws_first: "first_field line \<noteq> [] \<Longrightarrow> \<exists>ws. split_ws line = first_field line # ws"
  using split_acc_first [of "[]" line] by (simp add: split_ws_def)

lemma split_on_none: "count_list s sep = 0 \<Longrightarrow> split_on sep s = [s]"
  by (induction s) (auto split: if_splits)

lemma split_on_once:
  "count_list s sep = 1 \<Longrightarrow>
   split_on sep s = [takeWhile (\<lambda>c. c \<noteq> sep) s, drop 1 (dropWhile (\<lambda>c. c \<noteq> sep) s)]"
proof (induction s)
  case Nil
  then show ?case by simp
next
  case (Cons c cs)
  show ?case
  proof (cases "c = sep")
    case True
    with Cons.prems have "count_list cs sep = 0" by simp
    with True show ?thesis by (simp add: split_on_none)
  next
    case False
    with Cons.prems have "count_list cs sep = 1" by simp
    with Cons.IH False show ?thesis by simp
  qed
qed

lemma add_line_entry:
  assumes "entry_of line = Some (ds, ts)"
  shows "add_line e prefix line rv =
     (case strptime e ts (prefix @ ''%Y%m%d'') of
        Inr d \<Rightarrow> Inr (rv(ds := rv ds @ [d]))
      | Inl ex \<Rightarrow> if ex = ValueError then Inr rv else Inl ex)"
proof -
  from assms have n: "count_list (first_field line) CHR ''@'' = 1"
    and ds: "ds = takeWhile (\<lambda>c. c \<noteq> CHR ''@'') (first_field line)"
    and ts: "ts = drop 1 (dropWhile (\<lambda>c. c \<noteq> CHR ''@'') (first_field line))"
    by (auto simp: entry_of_def names_entry_def split: if_splits)
  from n have "first_field line \<noteq> []"
    by auto
  then obtain ws where w: "split_ws line = first_field line # ws"
    using split_ws_first by blast
  have "split_on CHR ''@'' (first_field line) = [ds, ts]"
    using split_on_once [OF n] ds ts by simp
  with w show ?thesis
    by (simp add: add_line_def)
qed

lemma dates_of_Nil: "dates_of e prefix dataset [] = []"
  by (simp add: dates_of_def)

lemma dates_of_Cons:
  "entry_of line = Some (ds, ts) \<Longrightarrow>
   dates_of e prefix dataset (line # rest) =
     (case strptime e ts (prefix @ ''%Y%m%d'') of
        Inr d \<Rightarrow> if ds = dataset then d # dates_of e prefix dataset rest
                 else dates_of e prefix dataset rest
      | Inl ex \<Rightarrow> dates_of e prefix dataset rest)"
  by (simp add: dates_of_def split: sum.splits)

lemma add_lines_entries:
  assumes "\<forall>line \<in> set lines. names_entry line"
    and "\<forall>ts ex. strptime e ts (prefix @ ''%Y%m%d'') = Inl ex \<longrightarrow> ex = ValueError"
  shows "\<exists>rv'. add_lines e prefix lines rv = Inr rv'
    \<and> (\<forall>dataset. rv' dataset = rv dataset @ dates_of e prefix dataset lines)"
  using assms(1)
proof (induction lines arbitrary: rv)
  case Nil
  then show ?case by (simp add: dates_of_Nil)
next
  case (Cons line rest)
  then have "names_entry line"
    by simp
  then obtain ds ts where en: "entry_of line = Some (ds, ts)"
    by (simp add: entry_of_def)
  let ?rv1 = "case strptime e ts (prefix @ ''%Y%m%d'') of
      Inr d \<Rightarrow> rv(ds := rv ds @ [d]) | Inl ex \<Rightarrow> rv"
  have step: "add_line e prefix line rv = Inr ?rv1"
    using assms(2) by (auto simp: add_line_entry [OF en] split: sum.splits)
  from Cons.prems have "\<forall>line \<in> set rest. names_entry line"
    by simp
  from Cons.IH [OF this, of ?rv1] obtain rv' where
    r: "add_lines e prefix rest ?rv1 = Inr rv'"
    and v: "\<forall>dataset. rv' dataset = ?rv1 dataset @ dates_of e prefix dataset rest"
    by blast
  have "add_lines e prefix (line # rest) rv = Inr rv'"
    using r step by simp
  moreover have "rv' dataset = rv dataset @ dates_of e prefix dataset (line # rest)" for dataset
    using v by (simp add: dates_of_Cons [OF en] split: sum.splits)
  ultimately show ?case by blast
qed

lemma set_dates_of:
  "set (dates_of e prefix dataset lines) =
     {d. \<exists>line \<in> set lines. \<exists>ts. entry_of line = Some (dataset, ts)
           \<and> strptime e ts (prefix @ ''%Y%m%d'') = Inr d}"
proof (induction lines)
  case Nil
  then show ?case by (simp add: dates_of_def)
next
  case (Cons line rest)
  show ?case
  proof (cases "entry_of line")
    case None
    then have "dates_of e prefix dataset (line # rest) = dates_of e prefix dataset rest"
      by (simp add: dates_of_def)
    with None Cons.IH show ?thesis by auto
  next
    case (Some p)
    obtain ds ts where p: "p = (ds, ts)" by (cases p)
    show ?thesis
      using Cons.IH Some p by (auto simp: dates_of_Cons split: sum.splits)
  qed
qed

lemma splitlines_no_datasets:
  "splitlines ''no datasets available'' = [''no datasets available'']"
  by (simp add: splitlines_def is_linebreak_def)

lemma get_sorted_snapshots_entries:
  assumes "zfs_list e w = Inr out"
    and "\<forall>line \<in> set (drop 1 (splitlines out)). names_entry line"
    and "\<forall>ts ex. strptime e ts (snapshot_prefix cfg @ ''%Y%m%d'') = Inl ex \<longrightarrow> ex = ValueError"
  shows "get_sorted_snapshots e cfg w =
    Inr (\<lambda>dataset. sort_desc (dates_of e (snapshot_prefix cfg) dataset (drop 1 (splitlines out))))"
proof (cases "out = ''no datasets available''")
  case True
  then show ?thesis
    using assms(1)
    by (simp add: get_sorted_snapshots_def splitlines_no_datasets dates_of_Nil sort_desc_Nil)
next
  case False
  obtain rv' where r: "add_lines e (snapshot_prefix cfg) (drop 1 (splitlines out)) (\<lambda>_. []) = Inr rv'"
    and v: "\<forall>dataset. rv' dataset = dates_of e (snapshot_prefix cfg) dataset (drop 1 (splitlines out))"
    using add_lines_entries [OF assms(2,3), of "\<lambda>_. []"] by auto
  show ?thesis
    using False assms(1) r v by (simp add: get_sorted_snapshots_def)
qed

text \<open>
  C6 (amended). When the listing is obtained, each of its lines after the header names an
  entry (its first field holds exactly one \<^verbatim>\<open>@\<close>), and the date parser raises nothing but
  \<^verbatim>\<open>ValueError\<close> on the format the configured prefix makes, the catalog query returns
  without an error; for each dataset its sequence is in descending order and holds the
  dates of the dataset's entries that parse, once for each such entry: an entry that
  does not parse is left out, and a dataset without entries has the empty sequence.
\<close>

theorem catalog_sorted_without_dedup:
  assumes "zfs_list e w = Inr out"
    and "\<forall>line \<in> set (drop 1 (splitlines out)). names_entry line"
    and "\<forall>ts ex. strptime e ts (snapshot_prefix cfg @ ''%Y%m%d'') = Inl ex \<longrightarrow> ex = ValueError"
  shows "\<exists>catalog. get_sorted_snapshots e cfg w = Inr catalog
    \<and> (\<forall>dataset.
          descending (catalog dataset)
          \<and> mset (catalog dataset)
              = mset (dates_of e (snapshot_prefix cfg) dataset (drop 1 (splitlines out)))
          \<and> set (catalog dataset) =
              {d. \<exists>line \<in> set (drop 1 (splitlines out)). \<exists>ts.
                    entry_of line = Some (dataset, ts)
                    \<and> strptime e ts (snapshot_prefix cfg @ ''%Y%m%d'') = Inr d}
          \<and> ((\<forall>line \<in> set (drop 1 (splitlines out)). \<forall>ts. entry_of line \<noteq> Some (dataset, ts))
               \<longrightarrow> catalog dataset = []))"
proof -
  let ?lines = "drop 1 (splitlines out)"
  let ?cat = "\<lambda>dataset. sort_desc (dates_of e (snapshot_prefix cfg) dataset ?lines)"
  have g: "get_sorted_snapshots e cfg w = Inr ?cat"
    using assms by (rule get_sorted_snapshots_entries)
  have s: "set (?cat dataset) =
      {d. \<exists>line \<in> set ?lines. \<exists>ts.
            entry_of line = Some (dataset, ts)
            \<and> strptime e ts (snapshot_prefix cfg @ ''%Y%m%d'') = Inr d}"
    for dataset
    by (simp add: set_sort_desc set_dates_of)
  have n: "?cat dataset = []"
    if "\<forall>line \<in> set ?lines. \<forall>ts. entry_of line \<noteq> Some (dataset, ts)" for dataset
  proof -
    have "set (?cat dataset) = {}"
      unfolding s using that by blast
    then show ?thesis by simp
  qed
  show ?thesis
    using g s n by (auto simp: descending_sort_desc mset_sort_desc)
qed

subsection \<open>Commands, the pruning pass and the loop over the datasets\<close>

lemma log_world_trace: "world (log lv msg st) = world st" "trace (log lv msg st) = trace st"
  by (simp_all add: log_def)

lemma run_zfs_dry: "run_zfs e True cmd st = (None, st)"
  by (simp add: run_zfs_def)

lemma run_zfs_trace: "trace (snd (run_zfs e False cmd st)) = trace st @ [cmd]"
  by (simp add: run_zfs_def log_def Let_def split: prod.splits option.splits exn.splits)




lemma run_zfs_trace_prefix: "\<exists>suffix. trace (snd (run_zfs e dry_run cmd st)) = trace st @ suffix"
  by (cases dry_run) (simp_all add: run_zfs_dry run_zfs_trace)

lemma destroy_all_trace_prefix:
  "\<exists>suffix. trace (snd (destroy_all e cfg dry_run dc ds st)) = trace st @ suffix"
proof (induction ds arbitrary: st)
  case Nil
  then show ?case by simp
next
  case (Cons d ds)
  let ?st0 = "log INFO (''Destroying snapshot '' @ snapshot_name e cfg dc d) st"
  obtain r st1 where r: "run_zfs e dry_run (destroy_cmd e cfg dc d) ?st0 = (r, st1)"
    by (cases "run_zfs e dry_run (destroy_cmd e cfg dc d) ?st0")
  obtain s1 where s1: "trace st1 = trace st @ s1"
    using run_zfs_trace_prefix [of e dry_run "destroy_cmd e cfg dc d" ?st0] r
    by (auto simp: log_world_trace)
  show ?case
  proof (cases r)
    case None
    obtain s2 where "trace (snd (destroy_all e cfg dry_run dc ds st1)) = trace st1 @ s2"
      using Cons.IH [of st1] by blast
    with None r s1 show ?thesis by simp
  next
    case (Some ex)
    with r s1 show ?thesis by simp
  qed
qed


lemma validate_from_first_missing:
  assumes "i < length ds" and "de_name (ds ! i) = None" and "\<forall>j<i. de_name (ds ! j) \<noteq> None"
  shows "validate_from cfg k ds =
    Inl (RuntimeError (''Dataset config #'' @ str_nat (k + i) @ '' must have a name''))"
  using assms
proof (induction ds arbitrary: i k)
  case Nil
  then show ?case by simp
next
  case (Cons d rest)
  show ?case
  proof (cases i)
    case 0
    with Cons.prems show ?thesis by simp
  next
    case (Suc i')
    from Cons.prems Suc have "de_name d \<noteq> None"
      by auto
    then obtain n where n: "de_name d = Some n" by auto
    have "validate_from cfg (Suc k) rest =
        Inl (RuntimeError (''Dataset config #'' @ str_nat (Suc k + i') @ '' must have a name''))"
    proof (rule Cons.IH)
      show "i' < length rest" using Cons.prems(1) Suc by simp
      show "de_name (rest ! i') = None" using Cons.prems(2) Suc by simp
      show "\<forall>j<i'. de_name (rest ! j) \<noteq> None"
      proof (intro allI impI)
        fix j assume "j < i'"
        then have "Suc j < i" using Suc by simp
        with Cons.prems(3) have "de_name ((d # rest) ! Suc j) \<noteq> None" by blast
        then show "de_name (rest ! j) \<noteq> None" by simp
      qed
    qed
    with n Suc show ?thesis by simp
  qed
qed

lemma validate_from_missing:
  assumes "\<exists>d \<in> set ds. de_name d = None"
  shows "\<exists>i < length ds. validate_from cfg k ds =
    Inl (RuntimeError (''Dataset config #'' @ str_nat (k + i) @ '' must have a name''))"
  using assms
proof (induction ds arbitrary: k)
  case Nil
  then show ?case by simp
next
  case (Cons d rest)
  show ?case
  proof (cases "de_name d")
    case None
    then have "validate_from cfg k (d # rest) =
        Inl (RuntimeError (''Dataset config #'' @ str_nat (k + 0) @ '' must have a name''))"
      by simp
    then show ?thesis by blast
  next
    case (Some n)
    with Cons.prems have "\<exists>d \<in> set rest. de_name d = None"
      by auto
    from Cons.IH [OF this, of "Suc k"] obtain i where i: "i < length rest"
      and v: "validate_from cfg (Suc k) rest =
        Inl (RuntimeError (''Dataset config #'' @ str_nat (Suc k + i) @ '' must have a name''))"
      by blast
    have "validate_from cfg k (d # rest) =
        Inl (RuntimeError (''Dataset config #'' @ str_nat (k + Suc i) @ '' must have a name''))"
      using Some v by simp
    moreover have "Suc i < length (d # rest)"
      using i by simp
    ultimately show ?thesis by blast
  qed
qed

lemma main_no_zfs:
  "which_zfs e = None \<Longrightarrow>
   main e cfg dry_run st = (Inr 2, log CRITICAL ''zfs command cannot be found'' st)"
  by (simp add: main_def)

lemma main_bad_config:
  "which_zfs e = Some p \<Longrightarrow> get_dataset_configs cfg = Inl (RuntimeError msg) \<Longrightarrow>
   main e cfg dry_run st = (Inr 3, log CRITICAL msg st)"
  by (simp add: main_def)



lemma cleanup_trace_prefix:
  "\<exists>suffix. trace (snd (cleanup e cfg dry_run dc st)) = trace st @ suffix"
  using destroy_all_trace_prefix [of e cfg dry_run dc _ st]
  by (cases "get_sorted_snapshots e cfg (world st)") (simp_all add: cleanup_def)

lemma process_dataset_not_due:
  "\<not> is_due dc (today_date e) \<Longrightarrow>
   process_dataset e cfg dry_run dc st =
     (None, log DEBUG (''No snapshot scheduled for dataset '' @ name dc) st)"
  by (simp add: process_dataset_def Let_def)

lemma process_dataset_exists:
  "is_due dc (today_date e) \<Longrightarrow> get_sorted_snapshots e cfg (world st) = Inr catalog \<Longrightarrow>
   today_date e \<in> set (catalog (name dc)) \<Longrightarrow>
   process_dataset e cfg dry_run dc st =
     (None, log WARNING (''Snapshot '' @ snapshot_name e cfg dc (today_date e) @ '' already exists'') st)"
  by (simp add: process_dataset_def Let_def)

lemma process_dataset_create:
  "is_due dc (today_date e) \<Longrightarrow> get_sorted_snapshots e cfg (world st) = Inr catalog \<Longrightarrow>
   today_date e \<notin> set (catalog (name dc)) \<Longrightarrow>
   process_dataset e cfg dry_run dc st =
     (case run_zfs e dry_run (create_cmd e cfg dc (today_date e))
             (log INFO (''Creating snapshot '' @ snapshot_name e cfg dc (today_date e)) st) of
        (Some ex, st1) \<Rightarrow> (Some ex, st1)
      | (None, st1) \<Rightarrow> cleanup e cfg dry_run dc st1)"
  by (simp add: process_dataset_def Let_def)


lemma process_dataset_create_trace:
  assumes "is_due dc (today_date e)"
    and "get_sorted_snapshots e cfg (world st) = Inr catalog"
    and "today_date e \<notin> set (catalog (name dc))"
  shows "create_cmd e cfg dc (today_date e) \<in> set (trace (snd (process_dataset e cfg False dc st)))"
proof -
  let ?st0 = "log INFO (''Creating snapshot '' @ snapshot_name e cfg dc (today_date e)) st"
  let ?c = "create_cmd e cfg dc (today_date e)"
  obtain r st1 where r: "run_zfs e False ?c ?st0 = (r, st1)"
    by (cases "run_zfs e False ?c ?st0")
  have t: "trace st1 = trace st @ [?c]"
    using run_zfs_trace [of e ?c ?st0] r by (simp add: log_world_trace)
  show ?thesis
  proof (cases r)
    case None
    obtain suffix where "trace (snd (cleanup e cfg False dc st1)) = trace st1 @ suffix"
      using cleanup_trace_prefix by blast
    with None r t show ?thesis
      by (simp add: process_dataset_create [OF assms])
  next
    case (Some ex)
    with r t show ?thesis
      by (simp add: process_dataset_create [OF assms])
  qed
qed







text \<open>The pruning pass does not read the reference date.\<close>

lemma add_line_today: "add_line (e\<lparr>today_date := t\<rparr>) prefix line rv = add_line e prefix line rv"
  by (simp add: add_line_def split: list.splits)

lemma add_lines_today: "add_lines (e\<lparr>today_date := t\<rparr>) prefix lines rv = add_lines e prefix lines rv"
  by (induction lines arbitrary: rv) (simp_all add: add_line_today split: sum.splits)

lemma get_sorted_snapshots_today:
  "get_sorted_snapshots (e\<lparr>today_date := t\<rparr>) cfg w = get_sorted_snapshots e cfg w"
  by (simp add: get_sorted_snapshots_def add_lines_today split: sum.splits)

lemma run_zfs_today: "run_zfs (e\<lparr>today_date := t\<rparr>) dry_run cmd st = run_zfs e dry_run cmd st"
  by (simp add: run_zfs_def)

lemma destroy_cmd_today:
  "destroy_cmd (e\<lparr>today_date := t\<rparr>) cfg dc d = destroy_cmd e cfg dc d"
  "snapshot_name (e\<lparr>today_date := t\<rparr>) cfg dc d = snapshot_name e cfg dc d"
  by (simp_all add: destroy_cmd_def snapshot_name_def)

lemma iter_order_today: "iter_order (e\<lparr>today_date := t\<rparr>) ds = iter_order e ds"
  by (simp add: iter_order_def)

lemma destroy_all_today:
  "destroy_all (e\<lparr>today_date := t\<rparr>) cfg dry_run dc ds st = destroy_all e cfg dry_run dc ds st"
  by (induction ds arbitrary: st)
    (simp_all add: run_zfs_today destroy_cmd_today split: prod.splits option.splits)

lemma cleanup_today:
  "cleanup (e\<lparr>today_date := t\<rparr>) cfg dry_run dc st = cleanup e cfg dry_run dc st"
  by (simp add: cleanup_def get_sorted_snapshots_today destroy_all_today iter_order_today
      split: sum.splits)

text \<open>
  C1 (amended). When the dataset is due and today's date is already in the catalog, the
  scheduler reports that the snapshot already exists and goes on to the next dataset:
  it requests neither the create nor any destroy, and the backend is left as it was.
\<close>

theorem existing_snapshot_skips_create_and_prune:
  assumes "is_due dc (today_date e)"
    and "get_sorted_snapshots e cfg (world st) = Inr catalog"
    and "today_date e \<in> set (catalog (name dc))"
  shows "process_dataset e cfg dry_run dc st =
      (None, log WARNING (''Snapshot '' @ snapshot_name e cfg dc (today_date e) @ '' already exists'') st)
    \<and> world (snd (process_dataset e cfg dry_run dc st)) = world st
    \<and> trace (snd (process_dataset e cfg dry_run dc st)) = trace st"
  using assms by (simp add: process_dataset_exists log_world_trace)

text \<open>
  C3. A dataset is due exactly when the daily tier is enabled, or the weekly tier is
  enabled and today is its weekday, or the monthly tier is enabled and today is its day
  of the month. A dataset that is not due is left alone: no command is run and the
  backend is unchanged; with all three counts 0 this holds on every date. For a due
  dataset whose catalog lacks today's date the create command is handed to the backend:
  it is the next command of the trace, the pruning pass follows unless the call raises
  an exception that is not caught, and the command stands in the trace when the loop
  body ends.
\<close>

theorem due_condition_gates_processing:
  "(is_due dc today \<longleftrightarrow>
      keep_days dc > 0
      \<or> (keep_weeks dc > 0 \<and> isoweekday today = dow dc)
      \<or> (keep_months dc > 0 \<and> int (day today) = dom' dc))
   \<and> (\<not> is_due dc (today_date e) \<longrightarrow>
        fst (process_dataset e cfg dry_run dc st) = None
        \<and> world (snd (process_dataset e cfg dry_run dc st)) = world st
        \<and> trace (snd (process_dataset e cfg dry_run dc st)) = trace st)
   \<and> (keep_days dc = 0 \<and> keep_weeks dc = 0 \<and> keep_months dc = 0 \<longrightarrow> \<not> is_due dc today)
   \<and> (is_due dc (today_date e) \<and> get_sorted_snapshots e cfg (world st) = Inr catalog
        \<and> today_date e \<notin> set (catalog (name dc)) \<longrightarrow>
        trace (snd (run_zfs e False (create_cmd e cfg dc (today_date e))
                 (log INFO (''Creating snapshot '' @ snapshot_name e cfg dc (today_date e)) st)))
          = trace st @ [create_cmd e cfg dc (today_date e)]
        \<and> process_dataset e cfg False dc st =
            (case run_zfs e False (create_cmd e cfg dc (today_date e))
                    (log INFO (''Creating snapshot '' @ snapshot_name e cfg dc (today_date e)) st) of
               (Some ex, st1) \<Rightarrow> (Some ex, st1)
             | (None, st1) \<Rightarrow> cleanup e cfg False dc st1)
        \<and> create_cmd e cfg dc (today_date e)
            \<in> set (trace (snd (process_dataset e cfg False dc st))))"
proof -
  have a: "is_due dc today \<longleftrightarrow>
      keep_days dc > 0
      \<or> (keep_weeks dc > 0 \<and> isoweekday today = dow dc)
      \<or> (keep_months dc > 0 \<and> int (day today) = dom' dc)"
    by (simp add: is_due_def)
  have b: "\<not> is_due dc (today_date e) \<longrightarrow>
        fst (process_dataset e cfg dry_run dc st) = None
        \<and> world (snd (process_dataset e cfg dry_run dc st)) = world st
        \<and> trace (snd (process_dataset e cfg dry_run dc st)) = trace st"
    by (simp add: process_dataset_not_due log_world_trace)
  have c: "keep_days dc = 0 \<and> keep_weeks dc = 0 \<and> keep_months dc = 0 \<longrightarrow> \<not> is_due dc today"
    by (simp add: is_due_def)
  have d: "trace (snd (run_zfs e False (create_cmd e cfg dc (today_date e))
                 (log INFO (''Creating snapshot '' @ snapshot_name e cfg dc (today_date e)) st)))
          = trace st @ [create_cmd e cfg dc (today_date e)]
        \<and> process_dataset e cfg False dc st =
            (case run_zfs e False (create_cmd e cfg dc (today_date e))
                    (log INFO (''Creating snapshot '' @ snapshot_name e cfg dc (today_date e)) st) of
               (Some ex, st1) \<Rightarrow> (Some ex, st1)
             | (None, st1) \<Rightarrow> cleanup e cfg False dc st1)
        \<and> create_cmd e cfg dc (today_date e)
            \<in> set (trace (snd (process_dataset e cfg False dc st)))"
    if "is_due dc (today_date e)" "get_sorted_snapshots e cfg (world st) = Inr catalog"
      "today_date e \<notin> set (catalog (name dc))"
    using process_dataset_create [OF that, of False] process_dataset_create_trace [OF that]
    by (simp add: run_zfs_trace log_world_trace)
  from a b c d show ?thesis
    by blast
qed

text \<open>
  C7 (amended). Without the backend tool the run ends at once with status 2. With the
  tool, a dataset entry without a name ends the run with status 3 and a report that
  carries the index of the first such entry. Either way the run has processed no
  dataset: no command was run and the backend is unchanged. The two statuses differ
  from each other and from the success status 0.
\<close>

theorem fatal_checks_abort_before_processing:
  "(which_zfs e = None \<longrightarrow>
      main e cfg dry_run st = (Inr 2, log CRITICAL ''zfs command cannot be found'' st))
   \<and> (which_zfs e \<noteq> None \<and> cfg_datasets cfg = Some ds \<and> i < length ds
        \<and> de_name (ds ! i) = None \<and> (\<forall>j<i. de_name (ds ! j) \<noteq> None) \<longrightarrow>
      main e cfg dry_run st =
        (Inr 3, log CRITICAL (''Dataset config #'' @ str_nat i @ '' must have a name'') st))
   \<and> (which_zfs e = None \<or> (\<exists>d \<in> set (get_or (cfg_datasets cfg) []). de_name d = None) \<longrightarrow>
        (fst (main e cfg dry_run st) = Inr 2 \<or> fst (main e cfg dry_run st) = Inr 3)
        \<and> world (snd (main e cfg dry_run st)) = world st
        \<and> trace (snd (main e cfg dry_run st)) = trace st)
   \<and> (2::int) \<noteq> 3 \<and> (2::int) \<noteq> 0 \<and> (3::int) \<noteq> 0"
proof -
  have a: "which_zfs e = None \<longrightarrow>
      main e cfg dry_run st = (Inr 2, log CRITICAL ''zfs command cannot be found'' st)"
    by (simp add: main_no_zfs)
  have b: "which_zfs e \<noteq> None \<and> cfg_datasets cfg = Some ds \<and> i < length ds
        \<and> de_name (ds ! i) = None \<and> (\<forall>j<i. de_name (ds ! j) \<noteq> None) \<longrightarrow>
      main e cfg dry_run st =
        (Inr 3, log CRITICAL (''Dataset config #'' @ str_nat i @ '' must have a name'') st)"
  proof (intro impI, elim conjE)
    assume z: "which_zfs e \<noteq> None" and ds: "cfg_datasets cfg = Some ds"
      and i: "i < length ds" "de_name (ds ! i) = None" "\<forall>j<i. de_name (ds ! j) \<noteq> None"
    obtain p where p: "which_zfs e = Some p"
      using z by auto
    have "get_dataset_configs cfg =
        Inl (RuntimeError (''Dataset config #'' @ str_nat (0 + i) @ '' must have a name''))"
      unfolding get_dataset_configs_def using ds validate_from_first_missing [OF i, of cfg 0]
      by (simp add: get_or_def)
    then show "main e cfg dry_run st =
        (Inr 3, log CRITICAL (''Dataset config #'' @ str_nat i @ '' must have a name'') st)"
      using main_bad_config [OF p, of cfg _ dry_run st] by simp
  qed
  have c: "which_zfs e = None \<or> (\<exists>d \<in> set (get_or (cfg_datasets cfg) []). de_name d = None) \<longrightarrow>
        (fst (main e cfg dry_run st) = Inr 2 \<or> fst (main e cfg dry_run st) = Inr 3)
        \<and> world (snd (main e cfg dry_run st)) = world st
        \<and> trace (snd (main e cfg dry_run st)) = trace st"
  proof (cases "which_zfs e")
    case None
    then show ?thesis by (simp add: main_no_zfs log_world_trace)
  next
    case (Some p)
    show ?thesis
    proof (intro impI)
      assume "which_zfs e = None \<or> (\<exists>d \<in> set (get_or (cfg_datasets cfg) []). de_name d = None)"
      with Some have "\<exists>d \<in> set (get_or (cfg_datasets cfg) []). de_name d = None"
        by simp
      from validate_from_missing [OF this, of cfg 0]
      obtain msg where "get_dataset_configs cfg = Inl (RuntimeError msg)"
        unfolding get_dataset_configs_def by blast
      then show "(fst (main e cfg dry_run st) = Inr 2 \<or> fst (main e cfg dry_run st) = Inr 3)
        \<and> world (snd (main e cfg dry_run st)) = world st
        \<and> trace (snd (main e cfg dry_run st)) = trace st"
        using main_bad_config [OF Some, of cfg msg dry_run st] by (simp add: log_world_trace)
    qed
  qed
  from a b c show ?thesis
    by simp
qed


text \<open>
  C10. The pruning pass reads the catalog and the policy only. The keep set and the
  deletion set are functions of the policy and the catalog sequence, and the pruning
  pass run from one state under two reference dates makes the same catalog query,
  runs the same destroy commands and ends in the same state.
\<close>

theorem cleanup_independent_of_today:
  "get_sorted_snapshots (e\<lparr>today_date := t1\<rparr>) cfg w = get_sorted_snapshots (e\<lparr>today_date := t2\<rparr>) cfg w
   \<and> destroy_all (e\<lparr>today_date := t1\<rparr>) cfg dry_run dc (delete_order dc snaps) st
       = destroy_all (e\<lparr>today_date := t2\<rparr>) cfg dry_run dc (delete_order dc snaps) st
   \<and> cleanup (e\<lparr>today_date := t1\<rparr>) cfg dry_run dc st
       = cleanup (e\<lparr>today_date := t2\<rparr>) cfg dry_run dc st"
  by (simp add: cleanup_today get_sorted_snapshots_today destroy_all_today)

section \<open>Concrete runs\<close>

text \<open>
  The theorems above at concrete policies, catalogs and runs of the in-memory backend.
  The rule sets below unfold the model for evaluation by the simplifier.
\<close>

lemmas date_eval = isoweekday_def toordinal_def days_before_year_def days_before_month_def
  is_leap_def DAYS_IN_MONTH_def days_in_month_def date_key_def Let_def

lemmas keep_eval = keep_set_def keep_daily_set_def keep_weekly_set_def keep_monthly_set_def
  delete_set_def delete_order_def slice_to_def tank_policy_def is_due_def descending_def

text \<open>
  A policy with one day, no week and five months on a catalog of four dates: the daily
  tier keeps the newest date, the weekly tier nothing, the monthly tier both dates on
  the first of a month.
\<close>

theorem keep_set_union_of_slices_witness:
  "nonneg_counts (tank_policy 1 0 5)
   \<and> keep_set (tank_policy 1 0 5) [Date 2024 1 10, Date 2024 1 1, Date 2023 12 1, Date 2023 11 30]
       = {Date 2024 1 10, Date 2024 1 1, Date 2023 12 1}
   \<and> keep_weekly_set (tank_policy 1 0 5) [Date 2024 1 10, Date 2024 1 1, Date 2023 12 1, Date 2023 11 30]
       = {}
   \<and> keep_monthly_set (tank_policy 1 0 5) [Date 2024 1 10, Date 2024 1 1, Date 2023 12 1, Date 2023 11 30]
       = {Date 2024 1 1, Date 2023 12 1}"
proof -
  let ?p = "tank_policy 1 0 5"
  let ?ds = "[Date 2024 1 10, Date 2024 1 1, Date 2023 12 1, Date 2023 11 30]"
  have n: "nonneg_counts ?p"
    by (simp add: nonneg_counts_def tank_policy_def)
  note t = keep_set_union_of_slices [OF n, of ?ds]
  have s: "spec_keep_set ?p ?ds = {Date 2024 1 10, Date 2024 1 1, Date 2023 12 1}"
    by (auto simp: spec_keep_set_def tank_policy_def date_eval)
  have w: "keep_weeks ?p = 0"
    by (simp add: tank_policy_def)
  have m: "int (length (filter (\<lambda>d. int (day d) = dom' ?p) ?ds)) \<le> keep_months ?p"
    by (simp add: tank_policy_def)
  have f: "{d \<in> set ?ds. int (day d) = dom' ?p} = {Date 2024 1 1, Date 2023 12 1}"
    by (auto simp: tank_policy_def)
  from t n s w m f show ?thesis
    by simp
qed

text \<open>
  One day, two weeks and one month on a catalog of six dates: at most four dates are
  kept, all of them from the catalog.
\<close>

theorem keep_set_bounded_witness:
  "nonneg_counts (tank_policy 1 2 1)
   \<and> int (card (keep_set (tank_policy 1 2 1)
                 [Date 2024 1 11, Date 2024 1 10, Date 2024 1 7, Date 2024 1 1, Date 2023 12 31,
                  Date 2023 12 24])) \<le> 4
   \<and> keep_set (tank_policy 1 2 1)
        [Date 2024 1 11, Date 2024 1 10, Date 2024 1 7, Date 2024 1 1, Date 2023 12 31,
         Date 2023 12 24]
       \<subseteq> set [Date 2024 1 11, Date 2024 1 10, Date 2024 1 7, Date 2024 1 1, Date 2023 12 31,
                Date 2023 12 24]"
proof -
  have n: "nonneg_counts (tank_policy 1 2 1)"
    by (simp add: nonneg_counts_def tank_policy_def)
  have k: "keep_days (tank_policy 1 2 1) + keep_weeks (tank_policy 1 2 1)
      + keep_months (tank_policy 1 2 1) = 4"
    by (simp add: tank_policy_def)
  show ?thesis
    using n k keep_set_bounded [OF n,
        of "[Date 2024 1 11, Date 2024 1 10, Date 2024 1 7, Date 2024 1 1, Date 2023 12 31,
             Date 2023 12 24]"]
    by simp
qed

text \<open>
  A weekly policy on a Sunday: today, 2024-01-07, is the newest date of the catalog and
  is kept.
\<close>

theorem today_kept_when_newest_witness:
  "is_due (tank_policy 0 1 0) (Date 2024 1 7)
   \<and> descending [Date 2024 1 7, Date 2024 1 6, Date 2023 12 31]
   \<and> Date 2024 1 7 \<in> keep_set (tank_policy 0 1 0) [Date 2024 1 7, Date 2024 1 6, Date 2023 12 31]
   \<and> Date 2024 1 7 \<notin> delete_set (tank_policy 0 1 0) [Date 2024 1 7, Date 2024 1 6, Date 2023 12 31]"
proof -
  let ?p = "tank_policy 0 1 0"
  let ?ds = "[Date 2024 1 7, Date 2024 1 6, Date 2023 12 31]"
  have due: "is_due ?p (Date 2024 1 7)"
    by (simp add: is_due_def tank_policy_def date_eval)
  have mem: "Date 2024 1 7 \<in> set ?ds"
    by simp
  have desc: "descending ?ds"
    by (simp add: descending_def date_key_def)
  have newest: "\<forall>d \<in> set ?ds. date_key d \<le> date_key (Date 2024 1 7)"
    by (simp add: date_key_def)
  from today_kept_when_newest [OF due mem desc newest] due desc show ?thesis
    by simp
qed

lemmas string_eval = isspace_def is_linebreak_def split_ws_def splitlines_def digit_char_def
  strftime_Ymd_def lower_def digit_val_def two_digits_def one_digit_def match_m_def match_d_def
  parse_Ymd_def mem_strptime_def plain_def

lemmas config_eval = get_or_def snapshot_prefix_def get_dataset_configs_def tank_def
  tank_config_def tank_policy_def DEFAULT_DOM_def DEFAULT_DOW_def DEFAULT_RECURSIVE_def
  DEFAULT_KEEP_DAYS_def DEFAULT_KEEP_WEEKS_def DEFAULT_KEEP_MONTHS_def

lemmas backend_eval = mem_list_def mem_cmd_def mem_env_def mem_state_def

lemmas catalog_eval = get_sorted_snapshots_def add_line_def sort_desc_def tank_catalog_def
  catalog_of_def

lemmas command_eval = snapshot_name_def zfs_command_def create_cmd_def destroy_cmd_def
  run_zfs_def log_def iter_order_def

lemma tank_validated:
  "get_dataset_configs (tank_config [tank kd kw km]) = Inr [tank_policy kd kw km]"
  by (simp add: config_eval)

lemma catalog_10_09:
  "get_sorted_snapshots (mem_env t) (tank_config ds)
     \<lparr>snapshots = [''tank@20240310'', ''tank@20240309''], failing = bad, list_fails = False\<rparr>
   = Inr (tank_catalog [Date 2024 3 10, Date 2024 3 9])"
  by (simp add: catalog_eval backend_eval config_eval string_eval date_eval fun_eq_iff)

lemma catalog_09_08:
  "get_sorted_snapshots (mem_env t) (tank_config ds)
     \<lparr>snapshots = [''tank@20240309'', ''tank@20240308''], failing = bad, list_fails = False\<rparr>
   = Inr (tank_catalog [Date 2024 3 9, Date 2024 3 8])"
  by (simp add: catalog_eval backend_eval config_eval string_eval date_eval fun_eq_iff)

lemma catalog_11:
  "get_sorted_snapshots (mem_env t) (tank_config ds)
     \<lparr>snapshots = [''tank@20240311''], failing = bad, list_fails = False\<rparr>
   = Inr (tank_catalog [Date 2024 3 11])"
  by (simp add: catalog_eval backend_eval config_eval string_eval date_eval fun_eq_iff)

lemma catalog_11_10:
  "get_sorted_snapshots (mem_env t) (tank_config ds)
     \<lparr>snapshots = [''tank@20240311'', ''tank@20240310''], failing = bad, list_fails = False\<rparr>
   = Inr (tank_catalog [Date 2024 3 11, Date 2024 3 10])"
  by (simp add: catalog_eval backend_eval config_eval string_eval date_eval fun_eq_iff)


lemma tank_names:
  "snapshot_name (mem_env t) (tank_config ds) (tank_policy kd kw km) (Date 2024 3 7) = ''tank@20240307''"
  "snapshot_name (mem_env t) (tank_config ds) (tank_policy kd kw km) (Date 2024 3 8) = ''tank@20240308''"
  "snapshot_name (mem_env t) (tank_config ds) (tank_policy kd kw km) (Date 2024 3 9) = ''tank@20240309''"
  "snapshot_name (mem_env t) (tank_config ds) (tank_policy kd kw km) (Date 2024 3 10) = ''tank@20240310''"
  by (simp_all add: command_eval config_eval string_eval mem_env_def)

lemma tank_commands:
  "create_cmd e (tank_config ds) (tank_policy kd kw km) d
     = [''zfs'', ''snapshot'', ''-r'', snapshot_name e (tank_config ds) (tank_policy kd kw km) d]"
  "destroy_cmd e (tank_config ds) (tank_policy kd kw km) d
     = [''zfs'', ''destroy'', ''-r'', snapshot_name e (tank_config ds) (tank_policy kd kw km) d]"
  by (simp_all add: create_cmd_def destroy_cmd_def zfs_command_def tank_policy_def)

lemmas run_eval = process_dataset_def cleanup_def main_def Let_def

text \<open>
  On 2024-03-10 the dataset has the snapshots of 2024-03-10 and 2024-03-09 and keeps one
  day: the scheduler logs the warning and runs no command.
\<close>

theorem existing_snapshot_skips_create_and_prune_witness:
  "is_due (tank_policy 1 0 0) (Date 2024 3 10)
   \<and> process_dataset (mem_env (Date 2024 3 10)) (tank_config [tank 1 0 0]) False
         (tank_policy 1 0 0) (mem_state [''tank@20240310'', ''tank@20240309''] [])
       = (None, log WARNING ''Snapshot tank@20240310 already exists''
                  (mem_state [''tank@20240310'', ''tank@20240309''] []))
   \<and> trace (snd (process_dataset (mem_env (Date 2024 3 10)) (tank_config [tank 1 0 0]) False
         (tank_policy 1 0 0) (mem_state [''tank@20240310'', ''tank@20240309''] []))) = []"
proof -
  let ?e = "mem_env (Date 2024 3 10)"
  let ?cfg = "tank_config [tank 1 0 0]"
  let ?dc = "tank_policy 1 0 0"
  let ?st = "mem_state [''tank@20240310'', ''tank@20240309''] []"
  have due: "is_due ?dc (today_date ?e)"
    by (simp add: is_due_def tank_policy_def)
  have cat: "get_sorted_snapshots ?e ?cfg (world ?st) = Inr (tank_catalog [Date 2024 3 10, Date 2024 3 9])"
    by (simp add: mem_state_def catalog_10_09)
  have mem: "today_date ?e \<in> set (tank_catalog [Date 2024 3 10, Date 2024 3 9] (name ?dc))"
    by (simp add: mem_env_def tank_catalog_def tank_policy_def)
  have t: "today_date ?e = Date 2024 3 10"
    by (simp add: mem_env_def)
  have nm: "snapshot_name ?e ?cfg ?dc (today_date ?e) = ''tank@20240310''"
    by (simp add: t tank_names)
  have tr: "trace ?st = []"
    by (simp add: mem_state_def)
  from existing_snapshot_skips_create_and_prune [OF due cat mem, of False] due nm t tr
  show ?thesis
    by (simp add: log_world_trace)
qed

text \<open>
  C1 as stated does not hold. In the same run the deletion set of the catalog is
  \<open>{2024-03-09}\<close>, yet the whole run issues no destroy command: the trace is empty
  and the only log record is the warning.
\<close>

theorem existing_snapshot_no_prune_counterexample:
  "is_due (tank_policy 1 0 0) (Date 2024 3 10)
   \<and> get_dataset_configs (tank_config [tank 1 0 0]) = Inr [tank_policy 1 0 0]
   \<and> catalog_of (mem_env (Date 2024 3 10)) (tank_config [tank 1 0 0])
        (world (mem_state [''tank@20240310'', ''tank@20240309''] [])) ''tank''
       = Some [Date 2024 3 10, Date 2024 3 9]
   \<and> delete_set (tank_policy 1 0 0) [Date 2024 3 10, Date 2024 3 9] = {Date 2024 3 9}
   \<and> main (mem_env (Date 2024 3 10)) (tank_config [tank 1 0 0]) False
        (mem_state [''tank@20240310'', ''tank@20240309''] [])
       = (Inr 0, log WARNING ''Snapshot tank@20240310 already exists''
                   (mem_state [''tank@20240310'', ''tank@20240309''] []))
   \<and> trace (snd (main (mem_env (Date 2024 3 10)) (tank_config [tank 1 0 0]) False
        (mem_state [''tank@20240310'', ''tank@20240309''] []))) = []"
proof -
  let ?e = "mem_env (Date 2024 3 10)"
  let ?cfg = "tank_config [tank 1 0 0]"
  let ?dc = "tank_policy 1 0 0"
  let ?st = "mem_state [''tank@20240310'', ''tank@20240309''] []"
  have due: "is_due ?dc (Date 2024 3 10)"
    by (simp add: is_due_def tank_policy_def)
  have cat: "get_sorted_snapshots ?e ?cfg (world ?st) = Inr (tank_catalog [Date 2024 3 10, Date 2024 3 9])"
    by (simp add: mem_state_def catalog_10_09)
  have c: "catalog_of ?e ?cfg (world ?st) ''tank'' = Some [Date 2024 3 10, Date 2024 3 9]"
    using cat by (simp add: catalog_of_def tank_catalog_def)
  have d: "delete_set ?dc [Date 2024 3 10, Date 2024 3 9] = {Date 2024 3 9}"
    by (auto simp: keep_eval)
  have nm: "snapshot_name ?e ?cfg ?dc (Date 2024 3 10) = ''tank@20240310''"
    by (simp add: tank_names)
  have t: "today_date ?e = Date 2024 3 10" and z: "which_zfs ?e = Some ''/sbin/zfs''"
    by (simp_all add: mem_env_def)
  have n: "name ?dc = ''tank''"
    by (simp add: tank_policy_def)
  have p: "process_dataset ?e ?cfg False ?dc ?st
      = (None, log WARNING ''Snapshot tank@20240310 already exists'' ?st)"
    using due by (simp add: process_dataset_def Let_def t n cat tank_catalog_def nm)
  have m: "main ?e ?cfg False ?st = (Inr 0, log WARNING ''Snapshot tank@20240310 already exists'' ?st)"
    by (simp add: main_def z tank_validated p)
  from due tank_validated [of 1 0 0] c d m show ?thesis
    by (simp add: log_world_trace mem_state_def)
qed

text \<open>
  A policy with all counts 0 is not due and its dataset is left untouched; a weekly
  policy anchored on Sunday is due on Sunday 2024-03-10, not on Monday 2024-03-11, and
  on the Sunday the create command is run and stands in the trace of the loop body.
\<close>

theorem due_condition_gates_processing_witness:
  "\<not> is_due (tank_policy 0 0 0) (Date 2024 3 10)
   \<and> trace (snd (process_dataset (mem_env (Date 2024 3 10)) (tank_config [tank 0 0 0]) False
         (tank_policy 0 0 0) (mem_state [''tank@20240309''] []))) = []
   \<and> world (snd (process_dataset (mem_env (Date 2024 3 10)) (tank_config [tank 0 0 0]) False
         (tank_policy 0 0 0) (mem_state [''tank@20240309''] [])))
       = \<lparr>snapshots = [''tank@20240309''], failing = [], list_fails = False\<rparr>
   \<and> is_due (tank_policy 0 1 0) (Date 2024 3 10)
   \<and> \<not> is_due (tank_policy 0 1 0) (Date 2024 3 11)
   \<and> trace (snd (run_zfs (mem_env (Date 2024 3 10)) False
         [''zfs'', ''snapshot'', ''-r'', ''tank@20240310'']
         (log INFO ''Creating snapshot tank@20240310'' (mem_state [''tank@20240309'', ''tank@20240308''] []))))
       = [[''zfs'', ''snapshot'', ''-r'', ''tank@20240310'']]
   \<and> [''zfs'', ''snapshot'', ''-r'', ''tank@20240310'']
       \<in> set (trace (snd (process_dataset (mem_env (Date 2024 3 10)) (tank_config [tank 0 1 0]) False
         (tank_policy 0 1 0) (mem_state [''tank@20240309'', ''tank@20240308''] []))))"
proof -
  let ?e = "mem_env (Date 2024 3 10)"
  let ?st0 = "mem_state [''tank@20240309''] []"
  let ?st1 = "mem_state [''tank@20240309'', ''tank@20240308''] []"
  let ?cfg = "tank_config [tank 0 1 0]"
  let ?dc = "tank_policy 0 1 0"
  have t: "today_date ?e = Date 2024 3 10"
    by (simp add: mem_env_def)
  note iff = due_condition_gates_processing [THEN conjunct1]
  note idle = due_condition_gates_processing [THEN conjunct2, THEN conjunct1, rule_format]
  note disabled = due_condition_gates_processing [THEN conjunct2, THEN conjunct2, THEN conjunct1, rule_format]
  note creates = due_condition_gates_processing [THEN conjunct2, THEN conjunct2, THEN conjunct2, rule_format]
  have zero: "keep_days (tank_policy 0 0 0) = 0 \<and> keep_weeks (tank_policy 0 0 0) = 0
      \<and> keep_months (tank_policy 0 0 0) = 0"
    by (simp add: tank_policy_def)
  have nd: "\<not> is_due (tank_policy 0 0 0) (Date 2024 3 10)"
    using zero by (rule disabled)
  then have "\<not> is_due (tank_policy 0 0 0) (today_date ?e)"
    by (simp add: t)
  then have idle: "fst (process_dataset ?e (tank_config [tank 0 0 0]) False (tank_policy 0 0 0) ?st0) = None
      \<and> world (snd (process_dataset ?e (tank_config [tank 0 0 0]) False (tank_policy 0 0 0) ?st0)) = world ?st0
      \<and> trace (snd (process_dataset ?e (tank_config [tank 0 0 0]) False (tank_policy 0 0 0) ?st0)) = trace ?st0"
    by (rule idle)
  have sunday: "isoweekday (Date 2024 3 10) = 7" and monday: "isoweekday (Date 2024 3 11) \<noteq> 7"
    by (simp_all add: date_eval)
  have due: "is_due ?dc (Date 2024 3 10)"
    using iff [of ?dc "Date 2024 3 10"] sunday by (simp add: tank_policy_def)
  have nd': "\<not> is_due ?dc (Date 2024 3 11)"
    using iff [of ?dc "Date 2024 3 11"] monday by (simp add: tank_policy_def)
  have cat: "get_sorted_snapshots ?e ?cfg (world ?st1) = Inr (tank_catalog [Date 2024 3 9, Date 2024 3 8])"
    by (simp add: mem_state_def catalog_09_08)
  have absent: "today_date ?e \<notin> set (tank_catalog [Date 2024 3 9, Date 2024 3 8] (name ?dc))"
    by (simp add: t tank_catalog_def tank_policy_def)
  have nm: "snapshot_name ?e ?cfg ?dc (Date 2024 3 10) = ''tank@20240310''"
    by (simp add: tank_names)
  have cmd: "create_cmd ?e ?cfg ?dc (Date 2024 3 10) = [''zfs'', ''snapshot'', ''-r'', ''tank@20240310'']"
    by (simp add: tank_commands nm)
  have pre: "is_due ?dc (today_date ?e) \<and> get_sorted_snapshots ?e ?cfg (world ?st1)
        = Inr (tank_catalog [Date 2024 3 9, Date 2024 3 8])
      \<and> today_date ?e \<notin> set (tank_catalog [Date 2024 3 9, Date 2024 3 8] (name ?dc))"
    using due cat absent by (simp add: t)
  then have "trace (snd (run_zfs ?e False (create_cmd ?e ?cfg ?dc (today_date ?e))
         (log INFO (''Creating snapshot '' @ snapshot_name ?e ?cfg ?dc (today_date ?e)) ?st1)))
       = trace ?st1 @ [create_cmd ?e ?cfg ?dc (today_date ?e)]"
    by (rule creates [THEN conjunct1])
  then have create: "trace (snd (run_zfs ?e False [''zfs'', ''snapshot'', ''-r'', ''tank@20240310'']
         (log INFO ''Creating snapshot tank@20240310'' ?st1)))
       = [[''zfs'', ''snapshot'', ''-r'', ''tank@20240310'']]"
    by (simp add: t nm cmd mem_state_def)
  from pre have "create_cmd ?e ?cfg ?dc (today_date ?e)
      \<in> set (trace (snd (process_dataset ?e ?cfg False ?dc ?st1)))"
    by (rule creates [THEN conjunct2, THEN conjunct2])
  then have stands: "[''zfs'', ''snapshot'', ''-r'', ''tank@20240310'']
      \<in> set (trace (snd (process_dataset ?e ?cfg False ?dc ?st1)))"
    by (simp add: t cmd)
  from nd idle due nd' create stands show ?thesis
    by (simp add: t mem_state_def)
qed

text \<open>The in-memory parser raises nothing but \<^verbatim>\<open>ValueError\<close> on a format with a plain prefix.\<close>

lemma parse_Ymd_raises: "parse_Ymd p s = Inl ex \<Longrightarrow> ex = ValueError"
  by (auto simp: parse_Ymd_def split: option.splits list.splits prod.splits if_splits)

lemma mem_strptime_plain: "plain p \<Longrightarrow> mem_strptime ts (p @ ''%Y%m%d'') = parse_Ymd p ts"
  by (simp add: mem_strptime_def Let_def)

lemma listing_09_manual_10:
  "drop 1 (splitlines (projr (mem_list
      \<lparr>snapshots = [''tank@auto-20240309'', ''tank@manual'', ''tank@auto-20240310''], failing = [],
         list_fails = False\<rparr>)))
   = [''tank@auto-20240309  0B  -  96K  -'', ''tank@manual  0B  -  96K  -'',
      ''tank@auto-20240310  0B  -  96K  -'']"
  by (simp add: mem_list_def splitlines_def is_linebreak_def)

lemma entries_09_manual_10:
  "entry_of ''tank@auto-20240309  0B  -  96K  -'' = Some (''tank'', ''auto-20240309'')"
  "entry_of ''tank@manual  0B  -  96K  -'' = Some (''tank'', ''manual'')"
  "entry_of ''tank@auto-20240310  0B  -  96K  -'' = Some (''tank'', ''auto-20240310'')"
  by (simp_all add: entry_of_def names_entry_def first_field_def isspace_def)

lemma parses_09_manual_10:
  "mem_strptime ''auto-20240309'' ''auto-%Y%m%d'' = Inr (Date 2024 3 9)"
  "mem_strptime ''manual'' ''auto-%Y%m%d'' = Inl ValueError"
  "mem_strptime ''auto-20240310'' ''auto-%Y%m%d'' = Inr (Date 2024 3 10)"
  by (simp_all add: string_eval date_eval)

text \<open>
  A listing with the snapshots \<open>tank@auto-20240309\<close>, \<open>tank@manual\<close> and
  \<open>tank@auto-20240310\<close> under the prefix \<open>auto-\<close>: the catalog of \<open>tank\<close> is descending
  and holds the two dates, the entry \<open>manual\<close> is left out, and the catalog of an unknown
  dataset is empty.
\<close>

theorem catalog_sorted_without_dedup_witness:
  "\<exists>catalog.
     get_sorted_snapshots (mem_env (Date 2024 3 10))
       ((tank_config [])\<lparr>cfg_snapshot_prefix := Some ''auto-''\<rparr>)
       \<lparr>snapshots = [''tank@auto-20240309'', ''tank@manual'', ''tank@auto-20240310''], failing = [],
          list_fails = False\<rparr> = Inr catalog
     \<and> descending (catalog ''tank'')
     \<and> mset (catalog ''tank'') = mset [Date 2024 3 9, Date 2024 3 10]
     \<and> set (catalog ''tank'') = {Date 2024 3 9, Date 2024 3 10}
     \<and> catalog ''pool'' = []"
proof -
  let ?w = "\<lparr>snapshots = [''tank@auto-20240309'', ''tank@manual'', ''tank@auto-20240310''], failing = [],
          list_fails = False\<rparr>"
  let ?e = "mem_env (Date 2024 3 10)"
  let ?cfg = "(tank_config [])\<lparr>cfg_snapshot_prefix := Some ''auto-''\<rparr>"
  let ?out = "projr (mem_list ?w)"
  let ?lines = "drop 1 (splitlines ?out)"
  have l: "zfs_list ?e ?w = Inr ?out"
    by (simp add: mem_env_def mem_list_def)
  have wf: "\<forall>line \<in> set ?lines. names_entry line"
    unfolding listing_09_manual_10 using entries_09_manual_10
    by (simp add: entry_of_def split: if_splits)
  have p: "snapshot_prefix ?cfg = ''auto-''"
    by (simp add: config_eval)
  have s: "strptime ?e = mem_strptime"
    by (simp add: mem_env_def)
  have "plain ''auto-''"
    by (simp add: plain_def isspace_def)
  then have pr: "\<forall>ts ex. strptime ?e ts (snapshot_prefix ?cfg @ ''%Y%m%d'') = Inl ex \<longrightarrow> ex = ValueError"
    unfolding p s using parse_Ymd_raises by (simp only: mem_strptime_plain) blast
  from catalog_sorted_without_dedup [OF l wf pr] obtain catalog where
    g: "get_sorted_snapshots ?e ?cfg ?w = Inr catalog"
    and d: "descending (catalog ''tank'')"
    and m: "mset (catalog ''tank'') = mset (dates_of ?e (snapshot_prefix ?cfg) ''tank'' ?lines)"
    and n: "(\<forall>line \<in> set ?lines. \<forall>ts. entry_of line \<noteq> Some (''pool'', ts)) \<longrightarrow> catalog ''pool'' = []"
    by blast
  have "dates_of ?e ''auto-'' ''tank'' ?lines = [Date 2024 3 9, Date 2024 3 10]"
    unfolding listing_09_manual_10
    by (simp add: dates_of_def entries_09_manual_10 s parses_09_manual_10 List.map_filter_simps)
  with m p have m': "mset (catalog ''tank'') = mset [Date 2024 3 9, Date 2024 3 10]"
    by simp
  then have "set_mset (mset (catalog ''tank'')) = set_mset (mset [Date 2024 3 9, Date 2024 3 10])"
    by (rule arg_cong)
  then have s': "set (catalog ''tank'') = {Date 2024 3 9, Date 2024 3 10}"
    by simp
  have "\<forall>line \<in> set ?lines. \<forall>ts. entry_of line \<noteq> Some (''pool'', ts)"
    unfolding listing_09_manual_10 by (simp add: entries_09_manual_10)
  with n have "catalog ''pool'' = []"
    by blast
  with g d m' s' show ?thesis
    by blast
qed

text \<open>
  C6 as stated does not hold. Duplicates are not removed: \<^verbatim>\<open>strptime\<close> reads both
  \<open>20240305\<close> and \<open>2024035\<close> as 2024-03-05, and the catalog holds the date twice. A
  listing line is not always an entry: the snapshot of a dataset with a space in its
  name makes the query raise \<^verbatim>\<open>ValueError\<close>. An identifier that does not parse is not
  always discarded: under the prefix \<open>%Y\<close> the parser raises \<^verbatim>\<open>re.error\<close>, which the
  query does not catch.
\<close>

theorem catalog_duplicates_counterexample:
  "catalog_of (mem_env (Date 2024 3 10)) (tank_config [])
     \<lparr>snapshots = [''tank@20240305'', ''tank@2024035''], failing = [], list_fails = False\<rparr>
     ''tank''
   = Some [Date 2024 3 5, Date 2024 3 5]
   \<and> get_sorted_snapshots (mem_env (Date 2024 3 10)) (tank_config [])
       \<lparr>snapshots = [''tank/My Documents@20240305''], failing = [], list_fails = False\<rparr>
     = Inl ValueError
   \<and> get_sorted_snapshots (mem_env (Date 2024 3 10))
       ((tank_config [])\<lparr>cfg_snapshot_prefix := Some ''%Y''\<rparr>)
       \<lparr>snapshots = [''tank@20240305''], failing = [], list_fails = False\<rparr>
     = Inl (OtherError ''re.error'')"
proof -
  have a: "catalog_of (mem_env (Date 2024 3 10)) (tank_config [])
     \<lparr>snapshots = [''tank@20240305'', ''tank@2024035''], failing = [], list_fails = False\<rparr>
     ''tank''
   = Some [Date 2024 3 5, Date 2024 3 5]"
    by (simp add: catalog_eval backend_eval config_eval string_eval date_eval)
  have b: "get_sorted_snapshots (mem_env (Date 2024 3 10)) (tank_config [])
       \<lparr>snapshots = [''tank/My Documents@20240305''], failing = [], list_fails = False\<rparr>
     = Inl ValueError"
    by (simp add: catalog_eval backend_eval config_eval string_eval)
  have c: "get_sorted_snapshots (mem_env (Date 2024 3 10))
       ((tank_config [])\<lparr>cfg_snapshot_prefix := Some ''%Y''\<rparr>)
       \<lparr>snapshots = [''tank@20240305''], failing = [], list_fails = False\<rparr>
     = Inl (OtherError ''re.error'')"
    by (simp add: catalog_eval backend_eval config_eval string_eval)
  from a b c show ?thesis
    by blast
qed

text \<open>
  A configuration whose second entry has no name: with the tool the run returns 3 and
  reports index 1, without the tool it returns 2; no command is run.
\<close>

theorem fatal_checks_abort_before_processing_witness:
  "main (mem_env (Date 2024 3 10)) (tank_config [tank 1 0 0, (tank 1 0 0)\<lparr>de_name := None\<rparr>]) False
     (mem_state [''tank@20240309''] [])
     = (Inr 3, log CRITICAL ''Dataset config #1 must have a name'' (mem_state [''tank@20240309''] []))
   \<and> main ((mem_env (Date 2024 3 10))\<lparr>which_zfs := None\<rparr>)
       (tank_config [tank 1 0 0, (tank 1 0 0)\<lparr>de_name := None\<rparr>]) False
       (mem_state [''tank@20240309''] [])
     = (Inr 2, log CRITICAL ''zfs command cannot be found'' (mem_state [''tank@20240309''] []))
   \<and> trace (snd (main (mem_env (Date 2024 3 10))
        (tank_config [tank 1 0 0, (tank 1 0 0)\<lparr>de_name := None\<rparr>]) False
        (mem_state [''tank@20240309''] []))) = []"
proof -
  let ?e = "mem_env (Date 2024 3 10)"
  let ?ds = "[tank 1 0 0, (tank 1 0 0)\<lparr>de_name := None\<rparr>]"
  let ?cfg = "tank_config ?ds"
  let ?st = "mem_state [''tank@20240309''] []"
  note no_tool = fatal_checks_abort_before_processing [THEN conjunct1, rule_format]
  note no_name = fatal_checks_abort_before_processing [THEN conjunct2, THEN conjunct1, rule_format]
  note untouched = fatal_checks_abort_before_processing
    [THEN conjunct2, THEN conjunct2, THEN conjunct1, rule_format]
  have "which_zfs ?e \<noteq> None \<and> cfg_datasets ?cfg = Some ?ds \<and> 1 < length ?ds
      \<and> de_name (?ds ! 1) = None \<and> (\<forall>j<1. de_name (?ds ! j) \<noteq> None)"
    by (simp add: mem_env_def tank_config_def tank_def)
  then have "main ?e ?cfg False ?st =
      (Inr 3, log CRITICAL (''Dataset config #'' @ str_nat 1 @ '' must have a name'') ?st)"
    by (rule no_name)
  then have a: "main ?e ?cfg False ?st =
      (Inr 3, log CRITICAL ''Dataset config #1 must have a name'' ?st)"
    by (simp add: digit_char_def)
  have "which_zfs (?e\<lparr>which_zfs := None\<rparr>) = None"
    by simp
  then have b: "main (?e\<lparr>which_zfs := None\<rparr>) ?cfg False ?st =
      (Inr 2, log CRITICAL ''zfs command cannot be found'' ?st)"
    by (rule no_tool)
  have "which_zfs ?e = None \<or> (\<exists>d \<in> set (get_or (cfg_datasets ?cfg) []). de_name d = None)"
    by (simp add: tank_config_def get_or_def)
  then have "trace (snd (main ?e ?cfg False ?st)) = trace ?st"
    using untouched [of ?e ?cfg False ?st] by blast
  then have c: "trace (snd (main ?e ?cfg False ?st)) = []"
    by (simp add: mem_state_def)
  from a b c show ?thesis
    by blast
qed

text \<open>
  C9 as stated does not hold. With one day to keep and a snapshot dated 2024-03-11 in
  the catalog, the run of 2024-03-10 creates today's snapshot, finds it second in the
  descending catalog, outside the keep set, and destroys it in the same run.
\<close>

theorem fresh_snapshot_destroyed_counterexample:
  "is_due (tank_policy 1 0 0) (Date 2024 3 10)
   \<and> descending [Date 2024 3 11, Date 2024 3 10]
   \<and> distinct [Date 2024 3 11, Date 2024 3 10]
   \<and> Date 2024 3 10 \<in> set [Date 2024 3 11, Date 2024 3 10]
   \<and> Date 2024 3 10 \<notin> keep_set (tank_policy 1 0 0) [Date 2024 3 11, Date 2024 3 10]
   \<and> Date 2024 3 10 \<in> delete_set (tank_policy 1 0 0) [Date 2024 3 11, Date 2024 3 10]
   \<and> get_dataset_configs (tank_config [tank 1 0 0]) = Inr [tank_policy 1 0 0]
   \<and> fst (main (mem_env (Date 2024 3 10)) (tank_config [tank 1 0 0]) False
        (mem_state [''tank@20240311''] [])) = Inr 0
   \<and> trace (snd (main (mem_env (Date 2024 3 10)) (tank_config [tank 1 0 0]) False
        (mem_state [''tank@20240311''] [])))
       = [[''zfs'', ''snapshot'', ''-r'', ''tank@20240310''],
          [''zfs'', ''destroy'', ''-r'', ''tank@20240310'']]
   \<and> snapshots (world (snd (main (mem_env (Date 2024 3 10)) (tank_config [tank 1 0 0]) False
        (mem_state [''tank@20240311''] [])))) = [''tank@20240311'']"
proof -
  let ?e = "mem_env (Date 2024 3 10)"
  let ?cfg = "tank_config [tank 1 0 0]"
  let ?dc = "tank_policy 1 0 0"
  let ?st = "mem_state [''tank@20240311''] []"
  have due: "is_due ?dc (Date 2024 3 10)"
    by (simp add: is_due_def tank_policy_def)
  have sets: "descending [Date 2024 3 11, Date 2024 3 10]"
    "Date 2024 3 10 \<notin> keep_set ?dc [Date 2024 3 11, Date 2024 3 10]"
    "Date 2024 3 10 \<in> delete_set ?dc [Date 2024 3 11, Date 2024 3 10]"
    by (simp_all add: keep_eval date_key_def)
  have order: "iter_order ?e (delete_order ?dc [Date 2024 3 11, Date 2024 3 10]) = [Date 2024 3 10]"
    by (simp add: keep_eval iter_order_def)
  have e: "today_date ?e = Date 2024 3 10" "which_zfs ?e = Some ''/sbin/zfs''"
    "zfs_cmd ?e = mem_cmd"
    by (simp_all add: mem_env_def)
  have n: "name ?dc = ''tank''"
    by (simp add: tank_policy_def)
  have p: "process_dataset ?e ?cfg False ?dc ?st =
      (None, \<lparr>world = \<lparr>snapshots = [''tank@20240311''], failing = [], list_fails = False\<rparr>,
               trace = [[''zfs'', ''snapshot'', ''-r'', ''tank@20240310''],
                        [''zfs'', ''destroy'', ''-r'', ''tank@20240310'']],
               logs = [(INFO, ''Creating snapshot tank@20240310''),
                       (INFO, ''Destroying snapshot tank@20240310'')]\<rparr>)"
    using due
    by (simp add: run_eval e n mem_state_def catalog_11 catalog_11_10 tank_catalog_def order
        tank_commands tank_names run_zfs_def log_def mem_cmd_def)
  have m: "main ?e ?cfg False ?st = (Inr 0, snd (process_dataset ?e ?cfg False ?dc ?st))"
    by (simp add: main_def e tank_validated p)
  from due sets tank_validated [of 1 0 0] m p show ?thesis
    by simp
qed







text \<open>
  C7 as stated does not hold when both faults are present. Without the tool, a
  configuration whose only entry has no name ends the run with status 2 and the single
  record that the tool cannot be found: the index of the entry is not reported.
\<close>

theorem index_not_reported_without_tool_counterexample:
  "de_name ((tank 1 0 0)\<lparr>de_name := None\<rparr>) = None
   \<and> which_zfs ((mem_env (Date 2024 3 10))\<lparr>which_zfs := None\<rparr>) = None
   \<and> main ((mem_env (Date 2024 3 10))\<lparr>which_zfs := None\<rparr>)
        (tank_config [(tank 1 0 0)\<lparr>de_name := None\<rparr>]) False (mem_state [''tank@20240309''] [])
       = (Inr 2,
          \<lparr>world = \<lparr>snapshots = [''tank@20240309''], failing = [], list_fails = False\<rparr>,
             trace = [], logs = [(CRITICAL, ''zfs command cannot be found'')]\<rparr>)
   \<and> main (mem_env (Date 2024 3 10))
        (tank_config [(tank 1 0 0)\<lparr>de_name := None\<rparr>]) False (mem_state [''tank@20240309''] [])
       = (Inr 3,
          \<lparr>world = \<lparr>snapshots = [''tank@20240309''], failing = [], list_fails = False\<rparr>,
             trace = [], logs = [(CRITICAL, ''Dataset config #0 must have a name'')]\<rparr>)"
  by (simp add: main_def mem_env_def mem_state_def log_def tank_def tank_config_def
      get_dataset_configs_def get_or_def digit_char_def)

end
